theory Spec2Isabelle
  imports Main "HOL-Library.Sublist"
begin

section \<open>Errors\<close>

text \<open>
  The compiler signals failure by throwing. User-facing errors are built by
  \<^verbatim>\<open>syntaxError\<close>, \<^verbatim>\<open>referenceError\<close> and \<^verbatim>\<open>typeError\<close>; everything else is a plain
  JavaScript \<^verbatim>\<open>new Error(...)\<close> (also what a failing \<^verbatim>\<open>assert\<close> or \<^verbatim>\<open>assertDefined\<close>
  throws). Each throw is a value \<open>Inl e\<close> of the result type.
\<close>

datatype error =
    SyntaxError string
  | ReferenceError string
  | TypeError string
  | PlainError string

fun isTypeError :: "error \<Rightarrow> bool" where
  "isTypeError (TypeError m) = True"
| "isTypeError e = False"

fun isSyntaxError :: "error \<Rightarrow> bool" where
  "isSyntaxError (SyntaxError m) = True"
| "isSyntaxError e = False"

fun isReferenceError :: "error \<Rightarrow> bool" where
  "isReferenceError (ReferenceError m) = True"
| "isReferenceError e = False"

fun message :: "error \<Rightarrow> string" where
  "message (SyntaxError m) = m"
| "message (ReferenceError m) = m"
| "message (TypeError m) = m"
| "message (PlainError m) = m"

text \<open>A name between single quotes, as the template strings of the messages print it.\<close>

definition quoted :: "string \<Rightarrow> string" where
  "quoted s = CHR 0x27 # s @ [CHR 0x27]"

text \<open>Decimal printing of an index, for the messages that interpolate one.\<close>

definition digit_char :: "nat \<Rightarrow> char" where
  "digit_char d = char_of (48 + d)"

function string_of_nat :: "nat \<Rightarrow> string" where
  "string_of_nat n =
     (if n < 10 then [digit_char n] else string_of_nat (n div 10) @ [digit_char (n mod 10)])"
  by pat_completeness auto
termination
  by (relation "measure id") auto

declare string_of_nat.simps [simp del]

section \<open>Types (helios-eval-entities.js)\<close>

text \<open>
  The classes that extend \<^verbatim>\<open>BuiltinType\<close> and carry no contained type. Their constructor
  arguments that are not types (the size hint of \<^verbatim>\<open>ByteArrayType\<close>, the script purpose of
  the hash and script-context types, the \<^verbatim>\<open>macrosAllowed\<close> flag) are read by no
  \<^verbatim>\<open>isBaseOf\<close> and are not represented.
\<close>

datatype builtin_class =
    IntType | RealType | BoolType | StringType | ByteArrayType
  | HashType | PubKeyHashType | StakeKeyHashType | PubKeyType | ScriptHashType
  | ValidatorHashType | MintingPolicyHashType | StakingValidatorHashType | DatumHashType
  | ScriptContextType
  | ScriptPurposeType | MintingScriptPurposeType | SpendingScriptPurposeType
  | RewardingScriptPurposeType | CertifyingScriptPurposeType
  | StakingPurposeType | StakingRewardingPurposeType | StakingCertifyingPurposeType
  | DCertType | RegisterDCertType | DeregisterDCertType | DelegateDCertType
  | RegisterPoolDCertType | RetirePoolDCertType
  | TxType | TxIdType | TxInputType | TxOutputType
  | OutputDatumType | NoOutputDatumType | HashedOutputDatumType | InlineOutputDatumType
  | RawDataType | TxOutputIdType | AddressType
  | CredentialType | CredentialPubKeyType | CredentialValidatorType
  | StakingHashType | StakingHashStakeKeyType | StakingHashValidatorType
  | StakingCredentialType | StakingHashCredentialType | StakingPtrCredentialType
  | TimeType | DurationType | TimeRangeType | AssetClassType | ValueType

text \<open>
  A \<^verbatim>\<open>Type\<close> object: a builtin without contained types, the builtin containers, a
  statement-backed type (struct, enum or enum member, known by the path of its statement),
  a reference to a type parameter, and the two wildcard types.
\<close>

datatype ty =
    Builtin builtin_class
  | ListType ty
  | MapType ty ty
  | OptionType ty
  | OptionSomeType ty
  | OptionNoneType ty
  | StatementType string
  | ParamTypeRef string
  | AnyType
  | AnyDataType

text \<open>
  The builtin enums override \<^verbatim>\<open>isBaseOf\<close> as
  \<^verbatim>\<open>super.isBaseOf(type) || (new Member()).isBaseOf(type) || ...\<close>; these are the members
  each of them lists, in the order of the source.
\<close>

fun enumMembers :: "builtin_class \<Rightarrow> builtin_class list" where
  "enumMembers ScriptPurposeType =
     [MintingScriptPurposeType, SpendingScriptPurposeType,
      RewardingScriptPurposeType, CertifyingScriptPurposeType]"
| "enumMembers StakingPurposeType = [StakingRewardingPurposeType, StakingCertifyingPurposeType]"
| "enumMembers DCertType =
     [RegisterDCertType, DeregisterDCertType, DelegateDCertType,
      RegisterPoolDCertType, RetirePoolDCertType]"
| "enumMembers OutputDatumType =
     [NoOutputDatumType, HashedOutputDatumType, InlineOutputDatumType]"
| "enumMembers CredentialType = [CredentialPubKeyType, CredentialValidatorType]"
| "enumMembers StakingHashType = [StakingHashStakeKeyType, StakingHashValidatorType]"
| "enumMembers StakingCredentialType = [StakingHashCredentialType, StakingPtrCredentialType]"
| "enumMembers c = []"

text \<open>
  \<^verbatim>\<open>DataType.isBaseOf\<close>: \<^verbatim>\<open>Object.getPrototypeOf(this) == Object.getPrototypeOf(type)\<close>,
  for \<open>this\<close> an instance of the builtin class \<open>c\<close>.
\<close>

fun DataType_isBaseOf :: "builtin_class \<Rightarrow> ty \<Rightarrow> bool" where
  "DataType_isBaseOf c (Builtin c') = (c = c')"
| "DataType_isBaseOf c t = False"

text \<open>JavaScript's \<^verbatim>\<open>&&\<close> and \<^verbatim>\<open>||\<close> on results that may throw: the right operand is
  evaluated only when the left one does not decide.\<close>

definition and_also :: "error + bool \<Rightarrow> error + bool \<Rightarrow> error + bool" where
  "and_also a b = (case a of Inl e \<Rightarrow> Inl e | Inr x \<Rightarrow> if x then b else Inr False)"

definition or_else :: "error + bool \<Rightarrow> error + bool \<Rightarrow> error + bool" where
  "or_else a b = (case a of Inl e \<Rightarrow> Inl e | Inr x \<Rightarrow> if x then Inr True else b)"

text \<open>
  \<^verbatim>\<open>isBaseOf\<close>, by the class of \<open>this\<close>. \<^verbatim>\<open>ParamTypeRef\<close> inherits \<^verbatim>\<open>Type.isBaseOf\<close>, which
  throws. \<^verbatim>\<open>AnyDataType.isBaseOf\<close> is \<^verbatim>\<open>!(type instanceof FuncType)\<close>; no type of this
  model is a function type.
\<close>

fun isBaseOf :: "ty \<Rightarrow> ty \<Rightarrow> error + bool" where
  "isBaseOf (Builtin c) t =
     Inr (DataType_isBaseOf c t \<or> list_ex (\<lambda>m. DataType_isBaseOf m t) (enumMembers c))"
| "isBaseOf (ListType i) t =
     (case t of ListType i' \<Rightarrow> isBaseOf i i' | _ \<Rightarrow> Inr False)"
| "isBaseOf (MapType k v) t =
     (case t of MapType k' v' \<Rightarrow> and_also (isBaseOf k k') (isBaseOf v v') | _ \<Rightarrow> Inr False)"
| "isBaseOf (OptionType s) t =
     (case t of
        OptionType s' \<Rightarrow> isBaseOf s s'
      | _ \<Rightarrow>
          or_else (case t of OptionSomeType s' \<Rightarrow> isBaseOf s s' | _ \<Rightarrow> Inr False)
                  (case t of OptionNoneType s' \<Rightarrow> isBaseOf s s' | _ \<Rightarrow> Inr False))"
| "isBaseOf (OptionSomeType s) t =
     (case t of OptionSomeType s' \<Rightarrow> isBaseOf s s' | _ \<Rightarrow> Inr False)"
| "isBaseOf (OptionNoneType s) t =
     (case t of OptionNoneType s' \<Rightarrow> isBaseOf s s' | _ \<Rightarrow> Inr False)"
| "isBaseOf (StatementType p) t =
     (case t of StatementType p' \<Rightarrow> Inr (prefix p p') | _ \<Rightarrow> Inr False)"
| "isBaseOf (ParamTypeRef n) t = Inl (PlainError ''not yet implemented'')"
| "isBaseOf AnyType t = Inr True"
| "isBaseOf AnyDataType t = Inr True"

text \<open>\<^verbatim>\<open>Type.same(a, b)\<close>: \<^verbatim>\<open>a.isBaseOf(b) && b.isBaseOf(a)\<close>.\<close>

definition same :: "ty \<Rightarrow> ty \<Rightarrow> error + bool" where
  "same a b = and_also (isBaseOf a b) (isBaseOf b a)"

text \<open>
  The types of the builtin catalogue: instances of the classes that extend
  \<^verbatim>\<open>BuiltinType\<close>. Their contained types are data types a program can denote: builtin
  types again, statement-backed types, or the \<^verbatim>\<open>AnyDataType\<close> the catalogue itself puts
  into a map (\<^verbatim>\<open>new MapType(new ScriptPurposeType(), new AnyDataType())\<close>).
\<close>

fun is_builtin :: "ty \<Rightarrow> bool" where
  "is_builtin (Builtin c) = True"
| "is_builtin (ListType i) = True"
| "is_builtin (MapType k v) = True"
| "is_builtin (OptionType s) = True"
| "is_builtin (OptionSomeType s) = True"
| "is_builtin (OptionNoneType s) = True"
| "is_builtin t = False"

fun catalogue :: "ty \<Rightarrow> bool" where
  "catalogue (Builtin c) = True"
| "catalogue (ListType i) = catalogue i"
| "catalogue (MapType k v) = (catalogue k \<and> catalogue v)"
| "catalogue (OptionType s) = catalogue s"
| "catalogue (OptionSomeType s) = catalogue s"
| "catalogue (OptionNoneType s) = catalogue s"
| "catalogue (StatementType p) = True"
| "catalogue AnyDataType = True"
| "catalogue (ParamTypeRef n) = False"
| "catalogue AnyType = False"

subsection \<open>Generic inference\<close>

text \<open>
  \<^verbatim>\<open>infer(site, map, type)\<close>. The \<^verbatim>\<open>Map<string, Type>\<close> of bindings is mutated by
  \<^verbatim>\<open>ParamTypeRef.infer\<close>; here it is passed in and returned. \<open>type\<close> is \<open>None\<close> for
  JavaScript's \<^verbatim>\<open>null\<close>. A container evaluates the \<^verbatim>\<open>infer\<close> calls of its contained
  types from left to right. Classes that do not override \<^verbatim>\<open>infer\<close> inherit \<^verbatim>\<open>Type.infer\<close>,
  which returns \<open>this\<close>.
\<close>

type_synonym bindings = "string \<rightharpoonup> ty"

fun infer :: "ty \<Rightarrow> bindings \<Rightarrow> ty option \<Rightarrow> error + (ty \<times> bindings)" where
  "infer (ParamTypeRef n) m type =
     (case m n of
        None \<Rightarrow>
          (case type of
             Some t \<Rightarrow> Inr (t, m(n \<mapsto> t))
           | None \<Rightarrow> Inl (PlainError (n @ '' should be in map'')))
      | Some prev \<Rightarrow> Inr (prev, m))"
| "infer (ListType i) m type =
     (case type of
        None \<Rightarrow>
          (case infer i m None of Inl e \<Rightarrow> Inl e | Inr (i', m') \<Rightarrow> Inr (ListType i', m'))
      | Some (ListType it) \<Rightarrow>
          (case infer i m (Some it) of Inl e \<Rightarrow> Inl e | Inr (i', m') \<Rightarrow> Inr (ListType i', m'))
      | Some _ \<Rightarrow> Inl (TypeError ''unable to infer type''))"
| "infer (MapType k v) m type =
     (case type of
        None \<Rightarrow>
          (case infer k m None of Inl e \<Rightarrow> Inl e
           | Inr (k', m') \<Rightarrow>
               (case infer v m' None of Inl e \<Rightarrow> Inl e
                | Inr (v', m'') \<Rightarrow> Inr (MapType k' v', m'')))
      | Some (MapType kt vt) \<Rightarrow>
          (case infer k m (Some kt) of Inl e \<Rightarrow> Inl e
           | Inr (k', m') \<Rightarrow>
               (case infer v m' (Some vt) of Inl e \<Rightarrow> Inl e
                | Inr (v', m'') \<Rightarrow> Inr (MapType k' v', m'')))
      | Some _ \<Rightarrow> Inl (TypeError ''unable to infer type''))"
| "infer (OptionType s) m type =
     (case type of
        None \<Rightarrow>
          (case infer s m None of Inl e \<Rightarrow> Inl e | Inr (s', m') \<Rightarrow> Inr (OptionType s', m'))
      | Some (OptionType st) \<Rightarrow>
          (case infer s m (Some st) of Inl e \<Rightarrow> Inl e | Inr (s', m') \<Rightarrow> Inr (OptionType s', m'))
      | Some (OptionSomeType st) \<Rightarrow>
          (case infer s m (Some st) of Inl e \<Rightarrow> Inl e | Inr (s', m') \<Rightarrow> Inr (OptionType s', m'))
      | Some (OptionNoneType st) \<Rightarrow>
          (case infer s m (Some st) of Inl e \<Rightarrow> Inl e | Inr (s', m') \<Rightarrow> Inr (OptionType s', m'))
      | Some _ \<Rightarrow> Inl (TypeError ''unable to infer type''))"
| "infer (OptionSomeType s) m type =
     (case type of
        None \<Rightarrow>
          (case infer s m None of Inl e \<Rightarrow> Inl e
           | Inr (s', m') \<Rightarrow> Inr (OptionSomeType s', m'))
      | Some (OptionSomeType st) \<Rightarrow>
          (case infer s m (Some st) of Inl e \<Rightarrow> Inl e
           | Inr (s', m') \<Rightarrow> Inr (OptionSomeType s', m'))
      | Some _ \<Rightarrow> Inl (TypeError ''unable to infer type''))"
| "infer (OptionNoneType s) m type =
     (case type of
        None \<Rightarrow>
          (case infer s m None of Inl e \<Rightarrow> Inl e
           | Inr (s', m') \<Rightarrow> Inr (OptionNoneType s', m'))
      | Some (OptionNoneType st) \<Rightarrow>
          (case infer s m (Some st) of Inl e \<Rightarrow> Inl e
           | Inr (s', m') \<Rightarrow> Inr (OptionNoneType s', m'))
      | Some _ \<Rightarrow> Inl (TypeError ''unable to infer type''))"
| "infer (Builtin c) m type = Inr (Builtin c, m)"
| "infer (StatementType p) m type = Inr (StatementType p, m)"
| "infer AnyType m type = Inr (AnyType, m)"
| "infer AnyDataType m type = Inr (AnyDataType, m)"

subsection \<open>Function types\<close>

text \<open>
  \<^verbatim>\<open>ArgType\<close> and \<^verbatim>\<open>FuncType\<close>. The argument name is \<open>None\<close> for \<^verbatim>\<open>null\<close>; the getter
  \<^verbatim>\<open>name\<close> then returns the empty string. The type of the arguments is a parameter of the
  records: \<^verbatim>\<open>checkCall\<close> only hands it to \<^verbatim>\<open>isInstanceOf\<close> and \<^verbatim>\<open>toString\<close>.
\<close>

record 'ty ArgType =
  argName :: "string option"
  argType :: 'ty
  argOptional :: bool

record 'ty FuncType =
  argTypes :: "'ty ArgType list"
  retTypes :: "'ty list"

definition ArgType_name :: "'ty ArgType \<Rightarrow> string" where
  "ArgType_name a = (case argName a of None \<Rightarrow> [] | Some w \<Rightarrow> w)"

definition isNamed :: "'ty ArgType \<Rightarrow> bool" where
  "isNamed a = (argName a \<noteq> None)"

definition isOptional :: "'ty ArgType \<Rightarrow> bool" where
  "isOptional a = argOptional a"

definition nArgs :: "'ty FuncType \<Rightarrow> nat" where
  "nArgs f = length (argTypes f)"

definition nNonOptArgs :: "'ty FuncType \<Rightarrow> nat" where
  "nNonOptArgs f = length (filter (\<lambda>at. \<not> isOptional at) (argTypes f))"

subsection \<open>Call checking\<close>

text \<open>\<^verbatim>\<open>Array.prototype.findIndex\<close>, with \<open>None\<close> for \<^verbatim>\<open>-1\<close>.\<close>

fun findIndex :: "('a \<Rightarrow> bool) \<Rightarrow> 'a list \<Rightarrow> nat option" where
  "findIndex P [] = None"
| "findIndex P (x # xs) =
     (if P x then Some 0 else (case findIndex P xs of None \<Rightarrow> None | Some i \<Rightarrow> Some (Suc i)))"

text \<open>
  \<^verbatim>\<open>namedArgs\<close> is a plain object (\<^verbatim>\<open>{[name: string]: Instance}\<close>, by default \<^verbatim>\<open>{}\<close>). It
  is modelled by the list of its own entries, in the order \<^verbatim>\<open>for (let key in namedArgs)\<close>
  visits them. The operator \<^verbatim>\<open>in\<close> also finds the properties the object inherits from
  \<^verbatim>\<open>Object.prototype\<close>; none of them is enumerable, so the \<^verbatim>\<open>for\<close> loop does not visit them.
\<close>

definition Object_prototype_keys :: "string list" where
  "Object_prototype_keys =
     [''constructor'', ''hasOwnProperty'', ''isPrototypeOf'', ''propertyIsEnumerable'',
      ''toLocaleString'', ''toString'', ''valueOf'', ''__proto__'', ''__defineGetter__'',
      ''__defineSetter__'', ''__lookupGetter__'', ''__lookupSetter__'']"

text \<open>\<^verbatim>\<open>key in obj\<close> for a plain object \<open>obj\<close>.\<close>

definition hasProperty :: "(string \<times> 'i) list \<Rightarrow> string \<Rightarrow> bool" where
  "hasProperty obj key = (map_of obj key \<noteq> None \<or> key \<in> set Object_prototype_keys)"

text \<open>
  \<^verbatim>\<open>FuncType.checkCall(site, posArgs, namedArgs)\<close>. \<open>isInstanceOf\<close>, and the \<^verbatim>\<open>toString\<close>
  of a type, of an instance and of the function type itself, are the methods the source
  calls on its arguments.

  The first loop runs when fewer positional arguments are given than there are
  non-optional arguments; it visits the first \<^verbatim>\<open>nNonOptArgs\<close> declared arguments, each of
  which must be named, with a name that is \<^verbatim>\<open>in namedArgs\<close>.
\<close>

fun checkNamedCover :: "'ty FuncType \<Rightarrow> nat \<Rightarrow> (string \<times> 'i) list \<Rightarrow> 'ty ArgType list
    \<Rightarrow> error + unit" where
  "checkNamedCover f nPos namedArgs [] = Inr ()"
| "checkNamedCover f nPos namedArgs (at # ats) =
     (if \<not> isNamed at then
        Inl (TypeError (''expected at least ''
          @ string_of_nat (length (filter (\<lambda>a. \<not> isNamed a) (argTypes f)))
          @ '' positional arg(s), got '' @ string_of_nat nPos @ '' positional arg(s)''))
      else if \<not> hasProperty namedArgs (ArgType_name at) then
        Inl (TypeError (''named arg '' @ ArgType_name at @ '' missing from call''))
      else checkNamedCover f nPos namedArgs ats)"

text \<open>The loop over the positional arguments; \<open>i\<close> is the index of the head of the lists.\<close>

fun checkPosArgs :: "('i \<Rightarrow> 'ty \<Rightarrow> bool) \<Rightarrow> ('ty \<Rightarrow> string) \<Rightarrow> ('i \<Rightarrow> string) \<Rightarrow> nat
    \<Rightarrow> 'i list \<Rightarrow> 'ty ArgType list \<Rightarrow> error + unit" where
  "checkPosArgs isInstanceOf tyStr instStr i (a # as) (at # ats) =
     (if \<not> isInstanceOf a (argType at) then
        Inl (TypeError (''expected '' @ quoted (tyStr (argType at)) @ '' for arg ''
          @ string_of_nat (i + 1) @ '', got '' @ quoted (instStr a)))
      else checkPosArgs isInstanceOf tyStr instStr (Suc i) as ats)"
| "checkPosArgs isInstanceOf tyStr instStr i [] ats = Inr ()"
| "checkPosArgs isInstanceOf tyStr instStr i (a # as) [] =
     Inl (PlainError ''undefined argument type'')"

text \<open>The loop over the named arguments.\<close>

fun checkNamedArgs :: "('i \<Rightarrow> 'ty \<Rightarrow> bool) \<Rightarrow> ('ty \<Rightarrow> string) \<Rightarrow> ('i \<Rightarrow> string) \<Rightarrow> string
    \<Rightarrow> 'ty FuncType \<Rightarrow> nat \<Rightarrow> (string \<times> 'i) list \<Rightarrow> error + unit" where
  "checkNamedArgs isInstanceOf tyStr instStr funcStr f nPos [] = Inr ()"
| "checkNamedArgs isInstanceOf tyStr instStr funcStr f nPos ((key, a) # rest) =
     (case findIndex (\<lambda>at. ArgType_name at = key) (argTypes f) of
        None \<Rightarrow>
          Inl (TypeError (''arg named '' @ key @ '' not found in function type '' @ funcStr))
      | Some i \<Rightarrow>
          if i < nPos then
            Inl (TypeError (''named arg '' @ quoted key @ '' already covered by positional arg ''
              @ string_of_nat (i + 1)))
          else if \<not> isInstanceOf a (argType (argTypes f ! i)) then
            Inl (TypeError (''expected '' @ quoted (tyStr (argType (argTypes f ! i)))
              @ '' for arg '' @ quoted key @ '', got '' @ [CHR 0x27] @ instStr a))
          else checkNamedArgs isInstanceOf tyStr instStr funcStr f nPos rest)"

definition checkCall :: "('i \<Rightarrow> 'ty \<Rightarrow> bool) \<Rightarrow> ('ty \<Rightarrow> string) \<Rightarrow> ('i \<Rightarrow> string) \<Rightarrow> string
    \<Rightarrow> 'ty FuncType \<Rightarrow> 'i list \<Rightarrow> (string \<times> 'i) list \<Rightarrow> error + 'ty list" where
  "checkCall isInstanceOf tyStr instStr funcStr f posArgs namedArgs =
     (case
        (if length posArgs < nNonOptArgs f then
           checkNamedCover f (length posArgs) namedArgs (take (nNonOptArgs f) (argTypes f))
         else if length posArgs > length (argTypes f) then
           Inl (TypeError (''expected at most '' @ string_of_nat (length (argTypes f))
             @ '' arg(s), got '' @ string_of_nat (length posArgs) @ '' arg(s)''))
         else Inr ())
      of
        Inl e \<Rightarrow> Inl e
      | Inr u \<Rightarrow>
          (case checkPosArgs isInstanceOf tyStr instStr 0 posArgs (argTypes f) of
             Inl e \<Rightarrow> Inl e
           | Inr u \<Rightarrow>
               (case checkNamedArgs isInstanceOf tyStr instStr funcStr f (length posArgs) namedArgs of
                  Inl e \<Rightarrow> Inl e
                | Inr u \<Rightarrow> Inr (retTypes f))))"

text \<open>
  \<^verbatim>\<open>FuncType.inferArgs\<close>: the declared argument types are walked in lock-step with the
  types of the caller's arguments, then the return types with \<^verbatim>\<open>null\<close>, all on the same
  map of bindings.
\<close>

fun inferEach :: "ty ArgType list \<Rightarrow> bindings \<Rightarrow> ty option list
    \<Rightarrow> error + (ty ArgType list \<times> bindings)" where
  "inferEach [] m ts = Inr ([], m)"
| "inferEach (at # ats) m ts =
     (case infer (argType at) m (case ts of [] \<Rightarrow> None | t # _ \<Rightarrow> t) of
        Inl e \<Rightarrow> Inl e
      | Inr (t', m') \<Rightarrow>
          (case inferEach ats m' (tl ts) of
             Inl e \<Rightarrow> Inl e
           | Inr (ats', m'') \<Rightarrow> Inr (at\<lparr>argType := t'\<rparr> # ats', m'')))"

fun inferRets :: "ty list \<Rightarrow> bindings \<Rightarrow> error + (ty list \<times> bindings)" where
  "inferRets [] m = Inr ([], m)"
| "inferRets (rt # rts) m =
     (case infer rt m None of
        Inl e \<Rightarrow> Inl e
      | Inr (t', m') \<Rightarrow>
          (case inferRets rts m' of
             Inl e \<Rightarrow> Inl e
           | Inr (rts', m'') \<Rightarrow> Inr (t' # rts', m'')))"

definition inferArgs :: "ty FuncType \<Rightarrow> bindings \<Rightarrow> ty list \<Rightarrow> error + (ty FuncType \<times> bindings)" where
  "inferArgs f m ts =
     (if length ts = length (argTypes f) then
        (case inferEach (argTypes f) m (map Some ts) of
           Inl e \<Rightarrow> Inl e
         | Inr (ats', m') \<Rightarrow>
             (case inferRets (retTypes f) m' of
                Inl e \<Rightarrow> Inl e
              | Inr (rts', m'') \<Rightarrow> Inr (\<lparr>argTypes = ats', retTypes = rts'\<rparr>, m'')))
      else Inl (TypeError ''unable to infer from args''))"

text \<open>
  The conditions under which a call is rejected, in the words of the specification.
  \<open>coveredByName\<close>: the declared argument is named and the call passes an argument of that
  name. \<open>declaredIndex\<close>: the position of the declared argument a named argument corresponds
  to.
\<close>

definition coveredByName :: "(string \<times> 'i) list \<Rightarrow> 'ty ArgType \<Rightarrow> bool" where
  "coveredByName namedArgs at = (isNamed at \<and> map_of namedArgs (ArgType_name at) \<noteq> None)"

definition declaredIndex :: "'ty FuncType \<Rightarrow> string \<Rightarrow> nat option" where
  "declaredIndex f key = findIndex (\<lambda>at. ArgType_name at = key) (argTypes f)"

definition tooManyPositional :: "'ty FuncType \<Rightarrow> 'i list \<Rightarrow> bool" where
  "tooManyPositional f posArgs = (length posArgs > length (argTypes f))"

definition badPositional :: "('i \<Rightarrow> 'ty \<Rightarrow> bool) \<Rightarrow> 'ty FuncType \<Rightarrow> 'i list \<Rightarrow> bool" where
  "badPositional isInstanceOf f posArgs =
     list_ex (\<lambda>(a, at). \<not> isInstanceOf a (argType at)) (zip posArgs (argTypes f))"

definition unknownName :: "'ty FuncType \<Rightarrow> (string \<times> 'i) list \<Rightarrow> bool" where
  "unknownName f namedArgs = list_ex (\<lambda>(key, a). declaredIndex f key = None) namedArgs"

definition alreadyCovered :: "'ty FuncType \<Rightarrow> 'i list \<Rightarrow> (string \<times> 'i) list \<Rightarrow> bool" where
  "alreadyCovered f posArgs namedArgs =
     list_ex (\<lambda>(key, a). case declaredIndex f key of None \<Rightarrow> False | Some i \<Rightarrow> i < length posArgs)
       namedArgs"

definition badNamed :: "('i \<Rightarrow> 'ty \<Rightarrow> bool) \<Rightarrow> 'ty FuncType \<Rightarrow> (string \<times> 'i) list \<Rightarrow> bool" where
  "badNamed isInstanceOf f namedArgs =
     list_ex (\<lambda>(key, a). case declaredIndex f key of
                           None \<Rightarrow> False
                         | Some i \<Rightarrow> \<not> isInstanceOf a (argType (argTypes f ! i)))
       namedArgs"

text \<open>
  The first condition as the claim states it: fewer positional arguments than there are
  non-optional arguments not covered by names.
\<close>

definition tooFewPositional_claimed :: "'ty FuncType \<Rightarrow> 'i list \<Rightarrow> (string \<times> 'i) list \<Rightarrow> bool" where
  "tooFewPositional_claimed f posArgs namedArgs =
     (length posArgs
        < length (filter (\<lambda>at. \<not> isOptional at \<and> \<not> coveredByName namedArgs at) (argTypes f)))"

text \<open>
  The first condition as the code has it: fewer positional arguments than there are
  non-optional arguments, unless each of the first \<^verbatim>\<open>nNonOptArgs\<close> declared arguments is
  covered by a name.
\<close>

definition tooFewPositional :: "'ty FuncType \<Rightarrow> 'i list \<Rightarrow> (string \<times> 'i) list \<Rightarrow> bool" where
  "tooFewPositional f posArgs namedArgs =
     (length posArgs < nNonOptArgs f
      \<and> \<not> list_all (coveredByName namedArgs) (take (nNonOptArgs f) (argTypes f)))"

definition callRejected_claimed :: "('i \<Rightarrow> 'ty \<Rightarrow> bool) \<Rightarrow> 'ty FuncType \<Rightarrow> 'i list
    \<Rightarrow> (string \<times> 'i) list \<Rightarrow> bool" where
  "callRejected_claimed isInstanceOf f posArgs namedArgs =
     (tooFewPositional_claimed f posArgs namedArgs \<or> tooManyPositional f posArgs
      \<or> badPositional isInstanceOf f posArgs \<or> badNamed isInstanceOf f namedArgs
      \<or> unknownName f namedArgs \<or> alreadyCovered f posArgs namedArgs)"

definition callRejected :: "('i \<Rightarrow> 'ty \<Rightarrow> bool) \<Rightarrow> 'ty FuncType \<Rightarrow> 'i list
    \<Rightarrow> (string \<times> 'i) list \<Rightarrow> bool" where
  "callRejected isInstanceOf f posArgs namedArgs =
     (tooFewPositional f posArgs namedArgs \<or> tooManyPositional f posArgs
      \<or> badPositional isInstanceOf f posArgs \<or> badNamed isInstanceOf f namedArgs
      \<or> unknownName f namedArgs \<or> alreadyCovered f posArgs namedArgs)"

text \<open>
  The function types none of whose argument names is the name of a property that a plain
  object inherits.
\<close>

definition noInheritedName :: "'ty FuncType \<Rightarrow> bool" where
  "noInheritedName f =
     (\<not> list_ex (\<lambda>at. ArgType_name at \<in> set Object_prototype_keys) (argTypes f))"

text \<open>A function \<^verbatim>\<open>(a: Int, b: Int) -> Bool\<close>, with the names of the types for the types.\<close>

definition exampleFunc :: "string FuncType" where
  "exampleFunc =
     \<lparr>argTypes = [\<lparr>argName = Some ''a'', argType = ''Int'', argOptional = False\<rparr>,
                  \<lparr>argName = Some ''b'', argType = ''Int'', argOptional = False\<rparr>],
      retTypes = [''Bool'']\<rparr>"

text \<open>A function \<^verbatim>\<open>(constructor: Int) -> Bool\<close>.\<close>

definition exampleInherited :: "string FuncType" where
  "exampleInherited =
     \<lparr>argTypes = [\<lparr>argName = Some ''constructor'', argType = ''Int'', argOptional = False\<rparr>],
      retTypes = [''Bool'']\<rparr>"

text \<open>A generic function \<^verbatim>\<open>(x: a, y: []a) -> a\<close>.\<close>

definition exampleGeneric :: "ty FuncType" where
  "exampleGeneric =
     \<lparr>argTypes = [\<lparr>argName = Some ''x'', argType = ParamTypeRef ''a'', argOptional = False\<rparr>,
                  \<lparr>argName = Some ''y'', argType = ListType (ParamTypeRef ''a''), argOptional = False\<rparr>],
      retTypes = [ParamTypeRef ''a'']\<rparr>"

section \<open>Program assembly (helios-program.js)\<close>

subsection \<open>IR fragments\<close>

text \<open>
  Modelled from the spec: the \<^verbatim>\<open>IR\<close> class of tokens.js, which is not among the sources. An
  IR fragment is a string or a sequence of fragments (\<^verbatim>\<open>new IR("...")\<close>,
  \<^verbatim>\<open>new IR([...])\<close>); \<^verbatim>\<open>join(sep)\<close> puts the separator between the fragments of a
  sequence; the source text of a fragment is the concatenation of its strings.
\<close>

datatype IR = IR string | IRs "IR list"

fun intersperse :: "'a \<Rightarrow> 'a list \<Rightarrow> 'a list" where
  "intersperse s [] = []"
| "intersperse s [x] = [x]"
| "intersperse s (x # y # ys) = x # s # intersperse s (y # ys)"

definition IR_join :: "string \<Rightarrow> IR list \<Rightarrow> IR" where
  "IR_join sep irs = IRs (intersperse (IR sep) irs)"

fun generateSource :: "IR \<Rightarrow> string" where
  "generateSource (IR s) = s"
| "generateSource (IRs xs) = concat (map generateSource xs)"

definition nl :: string where
  "nl = [CHR 0x0A]"

definition dq :: string where
  "dq = [CHR 0x22]"

subsection \<open>Modules and dependency resolution\<close>

text \<open>
  A statement, as far as the program assembler looks at it: its class, its name, and for
  the two import statements the name of the imported module.
\<close>

datatype Statement =
    ImportFromStatement string string string
  | ImportModuleStatement string
  | ConstStatement string
  | FuncStatement string
  | OtherStatement string

fun statement_name :: "Statement \<Rightarrow> string" where
  "statement_name (ImportFromStatement n origName moduleName) = n"
| "statement_name (ImportModuleStatement moduleName) = moduleName"
| "statement_name (ConstStatement n) = n"
| "statement_name (FuncStatement n) = n"
| "statement_name (OtherStatement n) = n"

text \<open>\<^verbatim>\<open>s.moduleName.value\<close> when \<open>s\<close> is one of the import statements.\<close>

fun moduleName :: "Statement \<Rightarrow> string option" where
  "moduleName (ImportFromStatement n origName mn) = Some mn"
| "moduleName (ImportModuleStatement mn) = Some mn"
| "moduleName s = None"

fun isConstStatement :: "Statement \<Rightarrow> bool" where
  "isConstStatement (ConstStatement n) = True"
| "isConstStatement s = False"

text \<open>\<^verbatim>\<open>Module\<close>; \<open>isMainModule\<close> is \<^verbatim>\<open>m instanceof MainModule\<close>.\<close>

record Module =
  name :: string
  statements :: "Statement list"
  isMainModule :: bool

text \<open>
  \<^verbatim>\<open>Module.filterDependencies(modules, stack)\<close>: \<open>filterDependencies modules this stack\<close>.
  The loop over the statements of \<open>this\<close> is \<open>filterDependencies_loop\<close>, with the
  dependencies collected so far.
\<close>

function filterDependencies :: "Module list \<Rightarrow> Module \<Rightarrow> Module list \<Rightarrow> error + Module list"
  and filterDependencies_loop :: "Module list \<Rightarrow> Module \<Rightarrow> Module list \<Rightarrow> Statement list
    \<Rightarrow> Module list \<Rightarrow> error + Module list" where
  "filterDependencies modules this stack =
     filterDependencies_loop modules this stack (statements this) []"
| "filterDependencies_loop modules this stack [] deps = Inr deps"
| "filterDependencies_loop modules this stack (s # ss) deps =
     (case moduleName s of
        None \<Rightarrow> filterDependencies_loop modules this stack ss deps
      | Some mn \<Rightarrow>
          if mn = name this then Inl (SyntaxError ''can't import self'')
          else if list_ex (\<lambda>d. name d = mn) stack then
            Inl (SyntaxError ''circular import detected'')
          else if list_ex (\<lambda>d. name d = mn) deps then
            filterDependencies_loop modules this stack ss deps
          else
            (case find (\<lambda>m. name m = mn) modules of
               None \<Rightarrow> Inl (ReferenceError (''module '' @ quoted mn @ '' not found''))
             | Some m \<Rightarrow>
                 (case filterDependencies modules m (this # stack) of
                    Inl e \<Rightarrow> Inl e
                  | Inr ds \<Rightarrow>
                      filterDependencies_loop modules this stack ss
                        (deps @ filter (\<lambda>d. \<not> list_ex (\<lambda>d'. name d' = name d) deps)
                                  (ds @ [m])))))"
  by pat_completeness auto
termination
proof (relation "inv_image (measure (\<lambda>(modules, this, stack).
           card (name ` set modules - name ` set (this # stack)))
         <*lex*> measure id)
        (\<lambda>x. case x of
           Inl (modules, this, stack) \<Rightarrow> ((modules, this, stack), Suc (length (statements this)))
         | Inr (modules, this, stack, ss, deps) \<Rightarrow> ((modules, this, stack), length ss))",
       goal_cases)
  case 1
  show ?case by (intro wf_inv_image wf_lex_prod wf_measure)
next
  case (2 modules this stack)
  show ?case by simp
next
  case (3 modules this stack s ss deps)
  show ?case by simp
next
  case (4 modules this stack s ss deps mn)
  show ?case by simp
next
  case (5 modules this stack s ss deps mn m)
  from 5 have m_in: "m \<in> set modules" and m_name: "name m = mn"
    by (auto simp: find_Some_iff)
  from 5 have fresh: "mn \<notin> name ` set (this # stack)"
    by (auto simp: list_ex_iff)
  have "name ` set modules - name ` set (m # this # stack)
      \<subset> name ` set modules - name ` set (this # stack)"
    using m_in m_name fresh by auto
  then have "card (name ` set modules - name ` set (m # this # stack))
      < card (name ` set modules - name ` set (this # stack))"
    by (intro psubset_card_mono) auto
  then show ?case by simp
next
  case (6 modules this stack s ss deps mn m ds)
  show ?case by simp
qed

subsection \<open>Program construction\<close>

datatype ScriptPurpose = Testing | Spending | Minting | Staking | ModulePurpose

text \<open>
  \<^verbatim>\<open>Program.parseImports(mainName, moduleSrcs)\<close>, on the modules that \<^verbatim>\<open>Module.new\<close> parsed
  from the sources (parsing is outside the model). \<open>parseImports_loop\<close> is the loop over
  the imports with the set of names seen so far.
\<close>

fun parseImports_loop :: "string set \<Rightarrow> Module list \<Rightarrow> error + unit" where
  "parseImports_loop names [] = Inr ()"
| "parseImports_loop names (m # ms) =
     (if name m \<in> names then
        Inl (SyntaxError (''non-unique module name '' @ quoted (name m)))
      else parseImports_loop (insert (name m) names) ms)"

definition parseImports :: "string \<Rightarrow> Module list \<Rightarrow> error + Module list" where
  "parseImports mainName imports =
     (case parseImports_loop {mainName} imports of
        Inl e \<Rightarrow> Inl e
      | Inr u \<Rightarrow> Inr imports)"

record Program =
  purpose :: ScriptPurpose
  modules :: "Module list"

text \<open>
  \<^verbatim>\<open>Program.new(mainSrc, moduleSrcs)\<close>. \<^verbatim>\<open>parseMain\<close> returns the main module and, when
  statements follow the entry function, a second module of the same name (\<open>post\<close>).
  \<open>evalTypes\<close> stands for the type checking of the assembled program, which runs last.
\<close>

definition Program_new :: "(Program \<Rightarrow> error + 'scope) \<Rightarrow> ScriptPurpose \<Rightarrow> Module \<Rightarrow> Module option
    \<Rightarrow> Module list \<Rightarrow> error + Program" where
  "Program_new evalTypes purp main post moduleSrcs =
     (case parseImports (name main) moduleSrcs of
        Inl e \<Rightarrow> Inl e
      | Inr imports \<Rightarrow>
          (case filterDependencies imports main [] of
             Inl e \<Rightarrow> Inl e
           | Inr mainImports \<Rightarrow>
               (case (case post of
                        None \<Rightarrow> Inr []
                      | Some pm \<Rightarrow>
                          (case filterDependencies imports pm [] of
                             Inl e \<Rightarrow> Inl e
                           | Inr ds \<Rightarrow>
                               Inr (filter (\<lambda>m. \<not> list_ex (\<lambda>d. name d = name m) mainImports) ds)))
                of
                  Inl e \<Rightarrow> Inl e
                | Inr postImports \<Rightarrow>
                    (let ms = mainImports @ [main] @ postImports
                              @ (case post of None \<Rightarrow> [] | Some pm \<Rightarrow> [pm]);
                         program = \<lparr>purpose = purp, modules = ms\<rparr>
                     in if purp = ModulePurpose then
                          Inl (SyntaxError ''can't use module for main'')
                        else
                          (case evalTypes program of
                             Inl e \<Rightarrow> Inl e
                           | Inr topScope \<Rightarrow> Inr program)))))"

subsection \<open>The parameter interface\<close>

text \<open>
  \<^verbatim>\<open>mainModule\<close>, \<^verbatim>\<open>postModule\<close>, \<^verbatim>\<open>mainAndPostStatements\<close> and \<^verbatim>\<open>allStatements\<close>. In
  \<^verbatim>\<open>allStatements\<close> a statement is marked as imported unless its module is the main module
  or the last module.
\<close>

definition mainModule :: "Program \<Rightarrow> error + Module" where
  "mainModule p =
     (case find isMainModule (modules p) of
        None \<Rightarrow> Inl (PlainError ''MainModule not found'')
      | Some m \<Rightarrow> Inr m)"

definition postModule :: "Program \<Rightarrow> Module option" where
  "postModule p =
     (if modules p = [] \<or> isMainModule (last (modules p)) then None
      else Some (last (modules p)))"

definition mainAndPostStatements :: "Program \<Rightarrow> error + Statement list" where
  "mainAndPostStatements p =
     (case mainModule p of
        Inl e \<Rightarrow> Inl e
      | Inr m \<Rightarrow>
          Inr (statements m @ (case postModule p of None \<Rightarrow> [] | Some pm \<Rightarrow> statements pm)))"

fun allStatements_from :: "nat \<Rightarrow> nat \<Rightarrow> Module list \<Rightarrow> (Statement \<times> bool) list" where
  "allStatements_from n i [] = []"
| "allStatements_from n i (m # ms) =
     map (\<lambda>s. (s, \<not> (isMainModule m \<or> i = n - 1))) (statements m)
       @ allStatements_from n (Suc i) ms"

definition allStatements :: "Program \<Rightarrow> (Statement \<times> bool) list" where
  "allStatements p = allStatements_from (length (modules p)) 0 (modules p)"

text \<open>
  \<^verbatim>\<open>paramTypes\<close>: the names of the const statements of the main and post modules (the
  declared types they are mapped to play no role in the lookup and are left out).
\<close>

definition paramTypes :: "Program \<Rightarrow> error + string list" where
  "paramTypes p =
     (case mainAndPostStatements p of
        Inl e \<Rightarrow> Inl e
      | Inr ss \<Rightarrow> Inr (map statement_name (filter isConstStatement ss)))"

text \<open>
  \<^verbatim>\<open>changeParamSafe(name, data)\<close>: the first const statement of that name in the main and
  post modules is changed; \<open>Inr i\<close> is its index.
\<close>

definition changeParamSafe :: "Program \<Rightarrow> string \<Rightarrow> error + nat" where
  "changeParamSafe p n =
     (case mainAndPostStatements p of
        Inl e \<Rightarrow> Inl e
      | Inr ss \<Rightarrow>
          (case findIndex (\<lambda>s. isConstStatement s \<and> statement_name s = n) ss of
             Some i \<Rightarrow> Inr i
           | None \<Rightarrow> Inl (ReferenceError (''param '' @ quoted n @ '' not found''))))"

text \<open>
  \<^verbatim>\<open>evalParam(name)\<close>. The callback handed to \<^verbatim>\<open>fetchDefinitions\<close> stops
  \<^verbatim>\<open>statementsToIR\<close> at the first const statement of that name outside the imported
  modules and records it in \<^verbatim>\<open>constStatement\<close>: \<open>evalParam_scan\<close> returns the statements
  visited and that statement. \<open>fetchDefinitions\<close> stands for the building of the
  definitions from the visited statements, \<open>evalIR\<close> for the evaluation of the constant's IR.
\<close>

fun evalParam_scan :: "string \<Rightarrow> (Statement \<times> bool) list
    \<Rightarrow> (Statement \<times> bool) list \<times> Statement option" where
  "evalParam_scan n [] = ([], None)"
| "evalParam_scan n ((s, isImport) # rest) =
     (if isConstStatement s \<and> statement_name s = n \<and> \<not> isImport then ([(s, isImport)], Some s)
      else (case evalParam_scan n rest of (visited, c) \<Rightarrow> ((s, isImport) # visited, c)))"

definition evalParam :: "((Statement \<times> bool) list \<Rightarrow> error + 'defs) \<Rightarrow> ('defs \<Rightarrow> Statement \<Rightarrow> error + 'v)
    \<Rightarrow> Program \<Rightarrow> string \<Rightarrow> error + 'v" where
  "evalParam fetchDefinitions evalIR p n =
     (case evalParam_scan n (allStatements p) of
        (visited, constStatement) \<Rightarrow>
          (case fetchDefinitions visited of
             Inl e \<Rightarrow> Inl e
           | Inr defs \<Rightarrow>
               (case constStatement of
                  None \<Rightarrow> Inl (PlainError (''param '' @ quoted n @ '' not found''))
                | Some s \<Rightarrow> evalIR defs s)))"

text \<open>
  The \<^verbatim>\<open>get\<close> handler of the proxy returned by the getter \<^verbatim>\<open>parameters\<close>; \<open>cache\<close> is
  \<^verbatim>\<open>this.#parameters\<close>. The updated cache is returned with the value.
\<close>

definition parameters_get :: "((Statement \<times> bool) list \<Rightarrow> error + 'defs)
    \<Rightarrow> ('defs \<Rightarrow> Statement \<Rightarrow> error + 'v) \<Rightarrow> Program \<Rightarrow> (string \<rightharpoonup> 'v) \<Rightarrow> string
    \<Rightarrow> error + ('v \<times> (string \<rightharpoonup> 'v))" where
  "parameters_get fetchDefinitions evalIR p cache n =
     (case paramTypes p of
        Inl e \<Rightarrow> Inl e
      | Inr types \<Rightarrow>
          (case cache n of
             Some v \<Rightarrow> Inr (v, cache)
           | None \<Rightarrow>
               if n \<notin> set types then Inl (PlainError (''invalid param name '' @ quoted n))
               else
                 (case evalParam fetchDefinitions evalIR p n of
                    Inl e \<Rightarrow> Inl e
                  | Inr v \<Rightarrow> Inr (v, cache(n \<mapsto> v)))))"

subsection \<open>Mutual recursion injection\<close>

text \<open>
  \<^verbatim>\<open>IRDefinitions\<close> is a JavaScript \<^verbatim>\<open>Map\<close> from names to IR: its entries in insertion
  order, with \<^verbatim>\<open>set\<close> replacing the value of a key in place or appending a new entry.
\<close>

fun map_set :: "'k \<Rightarrow> 'v \<Rightarrow> ('k \<times> 'v) list \<Rightarrow> ('k \<times> 'v) list" where
  "map_set k v [] = [(k, v)]"
| "map_set k v ((k', v') # m) = (if k' = k then (k, v) # m else (k', v') # map_set k v m)"

text \<open>
  Modelled from the spec: \<^verbatim>\<open>IR.replace(re, newContent)\<close> of tokens.js, which is not among
  the sources, for the regular expressions \<^verbatim>\<open>\bk\b\<close> (flags \<^verbatim>\<open>gm\<close>) that
  \<^verbatim>\<open>injectMutualRecursions\<close> builds. The spec has every textual occurrence of the key
  rewritten. The text of a definition is taken as its sequence of lexical items: the
  words (maximal runs of letters, digits and underscores) and the text between them; a key
  is a word, and the regular expression matches exactly the words equal to the key.
\<close>

datatype tok = Word string | Other string

type_synonym IRText = "tok list"

definition IR_replace :: "string \<Rightarrow> IRText \<Rightarrow> IRText \<Rightarrow> IRText" where
  "IR_replace k newContent ir = concat (map (\<lambda>t. if t = Word k then newContent else [t]) ir)"

text \<open>\<^verbatim>\<open>others.join(", ")\<close> as lexical items.\<close>

definition joinWords :: "string list \<Rightarrow> IRText" where
  "joinWords others = intersperse (Other '', '') (map Word others)"

text \<open>The replacement \<^verbatim>\<open>`${k}(${others.join(", ")})`\<close>.\<close>

definition application :: "string \<Rightarrow> string list \<Rightarrow> IRText" where
  "application k others = [Word k, Other ''(''] @ joinWords others @ [Other '')'']"

text \<open>The wrapper \<^verbatim>\<open>new IR([new IR(`(${others.join(", ")}) -> {`), ir, new IR("}")])\<close>.\<close>

definition wrapped :: "string list \<Rightarrow> IRText \<Rightarrow> IRText" where
  "wrapped others ir = [Other ''(''] @ joinWords others @ [Other '') -> {''] @ ir @ [Other ''}'']"

text \<open>\<^verbatim>\<open>assertDefined(map.get(k))\<close>.\<close>

definition map_get_defined :: "(string \<times> 'v) list \<Rightarrow> string \<Rightarrow> error + 'v" where
  "map_get_defined m k =
     (case map_of m k of None \<Rightarrow> Inl (PlainError ''assertDefined'') | Some v \<Rightarrow> Inr v)"

text \<open>The inner loop \<^verbatim>\<open>for (let k_ of keys)\<close>, which replaces \<open>k\<close> in every definition.\<close>

fun replaceInAll :: "string \<Rightarrow> IRText \<Rightarrow> string list \<Rightarrow> (string \<times> IRText) list
    \<Rightarrow> error + (string \<times> IRText) list" where
  "replaceInAll k newContent [] m = Inr m"
| "replaceInAll k newContent (k' # ks) m =
     (case map_get_defined m k' of
        Inl e \<Rightarrow> Inl e
      | Inr ir \<Rightarrow> replaceInAll k newContent ks (map_set k' (IR_replace k newContent ir) m))"

text \<open>
  The outer loop \<^verbatim>\<open>for (let i = keys.length - 1; i >= 0; i--)\<close>:
  \<open>injectMutualRecursions_loop keys n m\<close> runs the iterations \<open>i = n - 1, ..., 0\<close>.
\<close>

fun injectMutualRecursions_loop :: "string list \<Rightarrow> nat \<Rightarrow> (string \<times> IRText) list
    \<Rightarrow> error + (string \<times> IRText) list" where
  "injectMutualRecursions_loop keys 0 m = Inr m"
| "injectMutualRecursions_loop keys (Suc i) m =
     (let k = keys ! i;
          others = drop i keys
      in case replaceInAll k (application k others) keys m of
           Inl e \<Rightarrow> Inl e
         | Inr m' \<Rightarrow>
             (case map_get_defined m' k of
                Inl e \<Rightarrow> Inl e
              | Inr ir \<Rightarrow> injectMutualRecursions_loop keys i (map_set k (wrapped others ir) m')))"

definition injectMutualRecursions :: "(string \<times> IRText) list \<Rightarrow> error + (string \<times> IRText) list" where
  "injectMutualRecursions m = injectMutualRecursions_loop (map fst m) (length m) m"

text \<open>
  The result in the words of the specification: every occurrence of a key in a definition
  becomes the application of that key to the keys from its own position on, and the
  definition of the key at position \<open>i\<close> is wrapped as a function of the keys from \<open>i\<close> on.
\<close>

fun keyIndex :: "string \<Rightarrow> string list \<Rightarrow> nat option" where
  "keyIndex w [] = None"
| "keyIndex w (k # ks) =
     (if k = w then Some 0 else (case keyIndex w ks of None \<Rightarrow> None | Some i \<Rightarrow> Some (Suc i)))"

definition rewriteOccurrences :: "string list \<Rightarrow> IRText \<Rightarrow> IRText" where
  "rewriteOccurrences keys ir =
     concat (map (\<lambda>t. case t of
                    Word w \<Rightarrow> (case keyIndex w keys of
                                 None \<Rightarrow> [t]
                               | Some i \<Rightarrow> application w (drop i keys))
                  | Other s \<Rightarrow> [t]) ir)"

fun injected_from :: "string list \<Rightarrow> nat \<Rightarrow> (string \<times> IRText) list \<Rightarrow> (string \<times> IRText) list" where
  "injected_from keys i [] = []"
| "injected_from keys i ((k, ir) # m) =
     (k, wrapped (drop i keys) (rewriteOccurrences keys ir)) # injected_from keys (Suc i) m"

definition injected :: "(string \<times> IRText) list \<Rightarrow> (string \<times> IRText) list" where
  "injected m = injected_from (map fst m) 0 m"

subsection \<open>Validation of the entry point\<close>

text \<open>
  The checks on \<^verbatim>\<open>main\<close> that \<^verbatim>\<open>DatumRedeemerProgram.evalTypesInternal\<close> and
  \<^verbatim>\<open>RedeemerProgram.evalTypesInternal\<close> run after \<^verbatim>\<open>super.evalTypesInternal(scope)\<close> has
  evaluated the modules. \<open>argTypeNames\<close> and \<open>mainRetTypes\<close> are those of the main function; an
  empty type name comes from an underscore. The program file takes \<^verbatim>\<open>BoolType\<close> and the
  types from modules that are not among the sources, so \<^verbatim>\<open>BoolType.isBaseOf\<close> and the
  \<^verbatim>\<open>toString\<close> of a type are parameters. The result lists the deprecation warnings, which
  do not stop the compilation. A failing \<^verbatim>\<open>assert\<close> throws a plain error.
\<close>

definition checkRetTypes :: "('ty \<Rightarrow> bool) \<Rightarrow> ('ty \<Rightarrow> string) \<Rightarrow> 'ty list \<Rightarrow> error + unit" where
  "checkRetTypes BoolType_isBaseOf toString mainRetTypes =
     (case mainRetTypes of
        [t] \<Rightarrow>
          if \<not> BoolType_isBaseOf t then
            Inl (TypeError (''illegal return type for main, expected '' @ quoted ''Bool''
              @ '', got '' @ quoted (toString t)))
          else Inr ()
      | _ \<Rightarrow>
          Inl (TypeError (''illegal number of return values for main, expected 1, got ''
            @ string_of_nat (length mainRetTypes))))"

definition deprecation :: string where
  "deprecation = ''main with variable arguments''"

fun DatumRedeemer_checkArgs :: "bool \<Rightarrow> nat \<Rightarrow> bool \<Rightarrow> bool \<Rightarrow> bool \<Rightarrow> string list
    \<Rightarrow> error + unit" where
  "DatumRedeemer_checkArgs haveUnderscores i haveDatum haveRedeemer haveScriptContext [] = Inr ()"
| "DatumRedeemer_checkArgs haveUnderscores i haveDatum haveRedeemer haveScriptContext (t # ts) =
     (if t = [] then
        DatumRedeemer_checkArgs haveUnderscores (Suc i) haveDatum haveRedeemer haveScriptContext ts
      else if t = ''Datum'' then
        (if haveUnderscores \<and> i \<noteq> 0 then
           Inl (TypeError (''unexpected Datum type for arg '' @ string_of_nat i @ '' of main''))
         else if haveDatum then
           Inl (TypeError (''duplicate '' @ quoted ''Datum'' @ '' argument''))
         else if haveRedeemer then
           Inl (TypeError (quoted ''Datum'' @ '' must come before '' @ quoted ''Redeemer''))
         else if haveScriptContext then
           Inl (TypeError (quoted ''Datum'' @ '' must come before '' @ quoted ''ScriptContext''))
         else DatumRedeemer_checkArgs haveUnderscores (Suc i) True haveRedeemer haveScriptContext ts)
      else if t = ''Redeemer'' then
        (if haveUnderscores \<and> i \<noteq> 1 then
           Inl (TypeError (''unexpected Redeemer type for arg '' @ string_of_nat i @ '' of main''))
         else if haveRedeemer then
           Inl (TypeError (''duplicate '' @ quoted ''Redeemer'' @ '' argument''))
         else if haveScriptContext then
           Inl (TypeError (quoted ''Redeemer'' @ '' must come before '' @ quoted ''ScriptContext''))
         else DatumRedeemer_checkArgs haveUnderscores (Suc i) haveDatum True haveScriptContext ts)
      else if t = ''ScriptContext'' then
        (if haveUnderscores \<and> i \<noteq> 2 then
           Inl (TypeError (''unexpected ScriptContext type for arg '' @ string_of_nat i
             @ '' of main''))
         else if haveScriptContext then
           Inl (TypeError (''duplicate '' @ quoted ''ScriptContext'' @ '' argument''))
         else DatumRedeemer_checkArgs haveUnderscores (Suc i) haveDatum haveRedeemer True ts)
      else
        Inl (TypeError (''illegal argument type, must be '' @ quoted ''Datum'' @ '', ''
          @ quoted ''Redeemer'' @ '' or '' @ quoted ''ScriptContext'' @ '', got '' @ quoted t)))"

definition DatumRedeemerProgram_evalTypesInternal :: "('ty \<Rightarrow> bool) \<Rightarrow> ('ty \<Rightarrow> string)
    \<Rightarrow> string list \<Rightarrow> 'ty list \<Rightarrow> error + string list" where
  "DatumRedeemerProgram_evalTypesInternal BoolType_isBaseOf toString argTypeNames mainRetTypes =
     (let haveUnderscores = list_ex (\<lambda>n. n = []) argTypeNames in
      if length argTypeNames > 3 then Inl (TypeError ''too many arguments for main'')
      else if haveUnderscores \<and> length argTypeNames \<noteq> 3 then Inl (PlainError ''expected 3 args'')
      else
        (case DatumRedeemer_checkArgs haveUnderscores 0 False False False argTypeNames of
           Inl e \<Rightarrow> Inl e
         | Inr u \<Rightarrow>
             (case checkRetTypes BoolType_isBaseOf toString mainRetTypes of
                Inl e \<Rightarrow> Inl e
              | Inr u \<Rightarrow>
                  Inr (if \<not> haveUnderscores \<and> length argTypeNames \<noteq> 3 then [deprecation]
                       else []))))"

fun Redeemer_checkArgs :: "bool \<Rightarrow> nat \<Rightarrow> bool \<Rightarrow> bool \<Rightarrow> string list \<Rightarrow> error + unit" where
  "Redeemer_checkArgs haveUnderscores i haveRedeemer haveScriptContext [] = Inr ()"
| "Redeemer_checkArgs haveUnderscores i haveRedeemer haveScriptContext (t # ts) =
     (if t = [] then
        Redeemer_checkArgs haveUnderscores (Suc i) haveRedeemer haveScriptContext ts
      else if t = ''Redeemer'' then
        (if haveUnderscores \<and> i \<noteq> 0 then
           Inl (TypeError (''unexpected Redeemer type for arg '' @ string_of_nat i @ '' of main''))
         else if haveRedeemer then
           Inl (TypeError (''duplicate '' @ quoted ''Redeemer'' @ '' argument''))
         else if haveScriptContext then
           Inl (TypeError (quoted ''Redeemer'' @ '' must come before '' @ quoted ''ScriptContext''))
         else Redeemer_checkArgs haveUnderscores (Suc i) True haveScriptContext ts)
      else if t = ''ScriptContext'' then
        (if haveUnderscores \<and> i \<noteq> 1 then
           Inl (TypeError (''unexpected ScriptContext type for arg '' @ string_of_nat i
             @ '' of main''))
         else if haveScriptContext then
           Inl (TypeError (''duplicate '' @ quoted ''ScriptContext'' @ '' argument''))
         else Redeemer_checkArgs haveUnderscores (Suc i) haveRedeemer True ts)
      else
        Inl (TypeError (''illegal argument type, must be '' @ quoted ''Redeemer'' @ '' or ''
          @ quoted ''ScriptContext'' @ '', got '' @ quoted t)))"

definition RedeemerProgram_evalTypesInternal :: "('ty \<Rightarrow> bool) \<Rightarrow> ('ty \<Rightarrow> string)
    \<Rightarrow> string list \<Rightarrow> 'ty list \<Rightarrow> error + string list" where
  "RedeemerProgram_evalTypesInternal BoolType_isBaseOf toString argTypeNames mainRetTypes =
     (let haveUnderscores = list_ex (\<lambda>n. n = []) argTypeNames in
      if length argTypeNames > 2 then Inl (TypeError ''too many arguments for main'')
      else if haveUnderscores \<and> length argTypeNames \<noteq> 2 then
        Inl (PlainError ''expected 2 arguments'')
      else
        (case Redeemer_checkArgs haveUnderscores 0 False False argTypeNames of
           Inl e \<Rightarrow> Inl e
         | Inr u \<Rightarrow>
             (case checkRetTypes BoolType_isBaseOf toString mainRetTypes of
                Inl e \<Rightarrow> Inl e
              | Inr u \<Rightarrow>
                  Inr (if \<not> haveUnderscores \<and> length argTypeNames \<noteq> 2 then [deprecation]
                       else []))))"

subsection \<open>Lowering of the entry point\<close>

text \<open>
  The loops of \<^verbatim>\<open>DatumRedeemerProgram.toIR\<close> and \<^verbatim>\<open>RedeemerProgram.toIR\<close> over
  \<^verbatim>\<open>argTypeNames\<close>, which fill \<^verbatim>\<open>outerArgs\<close> and \<^verbatim>\<open>innerArgs\<close>, and the padding loops
  \<^verbatim>\<open>while (outerArgs.length < n) outerArgs.push(new IR("_"))\<close>.
\<close>

definition padTo :: "nat \<Rightarrow> IR list \<Rightarrow> IR list" where
  "padTo n outerArgs = outerArgs @ replicate (n - length outerArgs) (IR ''_'')"

fun DatumRedeemer_args :: "string list \<Rightarrow> IR list \<Rightarrow> IR list \<Rightarrow> error + (IR list \<times> IR list)" where
  "DatumRedeemer_args [] outerArgs innerArgs = Inr (outerArgs, innerArgs)"
| "DatumRedeemer_args (t # ts) outerArgs innerArgs =
     (if t = ''Datum'' then
        DatumRedeemer_args ts (outerArgs @ [IR ''datum'']) (innerArgs @ [IR ''datum''])
      else if t = ''Redeemer'' then
        DatumRedeemer_args ts
          ((if length outerArgs = 0 then outerArgs @ [IR ''_''] else outerArgs) @ [IR ''redeemer''])
          (innerArgs @ [IR ''redeemer''])
      else if t = ''ScriptContext'' then
        DatumRedeemer_args ts (padTo 2 outerArgs @ [IR ''ctx'']) (innerArgs @ [IR ''ctx''])
      else if t = [] then
        DatumRedeemer_args ts (outerArgs @ [IR ''_'']) (innerArgs @ [IR ''0''])
      else Inl (PlainError ''unexpected''))"

fun Redeemer_args :: "string list \<Rightarrow> IR list \<Rightarrow> IR list \<Rightarrow> error + (IR list \<times> IR list)" where
  "Redeemer_args [] outerArgs innerArgs = Inr (outerArgs, innerArgs)"
| "Redeemer_args (t # ts) outerArgs innerArgs =
     (if t = ''Redeemer'' then
        Redeemer_args ts (outerArgs @ [IR ''redeemer'']) (innerArgs @ [IR ''redeemer''])
      else if t = ''ScriptContext'' then
        Redeemer_args ts
          ((if length outerArgs = 0 then outerArgs @ [IR ''_''] else outerArgs) @ [IR ''ctx''])
          (innerArgs @ [IR ''ctx''])
      else if t = [] then
        Redeemer_args ts (outerArgs @ [IR ''_'']) (innerArgs @ [IR ''0''])
      else Inl (PlainError ''unexpected''))"

text \<open>
  The entry-point IR both classes build from the two lists; \<open>TAB\<close> is the constant of
  config.js and \<open>mainPath\<close> the path of the main function.
\<close>

definition entryPoint :: "string \<Rightarrow> string \<Rightarrow> IR list \<Rightarrow> IR list \<Rightarrow> IR" where
  "entryPoint TAB mainPath outerArgs innerArgs =
     IRs [
       IR (TAB @ ''/*entry point*/'' @ nl @ TAB @ ''(''),
       IR_join '', '' outerArgs,
       IR ('') -> {'' @ nl @ TAB @ TAB),
       IR (''__core__ifThenElse('' @ nl @ TAB @ TAB @ TAB @ mainPath @ ''('' @ mainPath @ '')(''),
       IR_join '', '' innerArgs,
       IR (''),'' @ nl @ TAB @ TAB @ TAB @ ''() -> {()},'' @ nl @ TAB @ TAB @ TAB
           @ ''() -> {error('' @ dq @ ''transaction rejected'' @ dq @ '')}'' @ nl
           @ TAB @ TAB @ '')()''),
       IR (nl @ TAB @ ''}'')
     ]"

text \<open>
  \<^verbatim>\<open>toIR(parameters)\<close>; \<open>wrapEntryPoint\<close> is the method that puts the definitions of the
  program around the entry point.
\<close>

definition DatumRedeemerProgram_toIR :: "(IR \<Rightarrow> string list \<Rightarrow> error + IR) \<Rightarrow> string \<Rightarrow> string
    \<Rightarrow> string list \<Rightarrow> string list \<Rightarrow> error + IR" where
  "DatumRedeemerProgram_toIR wrapEntryPoint TAB mainPath argTypeNames parameters =
     (case DatumRedeemer_args argTypeNames [] [] of
        Inl e \<Rightarrow> Inl e
      | Inr (outerArgs, innerArgs) \<Rightarrow>
          wrapEntryPoint (entryPoint TAB mainPath (padTo 3 outerArgs) innerArgs) parameters)"

definition RedeemerProgram_toIR :: "(IR \<Rightarrow> string list \<Rightarrow> error + IR) \<Rightarrow> string \<Rightarrow> string
    \<Rightarrow> string list \<Rightarrow> string list \<Rightarrow> error + IR" where
  "RedeemerProgram_toIR wrapEntryPoint TAB mainPath argTypeNames parameters =
     (case Redeemer_args argTypeNames [] [] of
        Inl e \<Rightarrow> Inl e
      | Inr (outerArgs, innerArgs) \<Rightarrow>
          wrapEntryPoint (entryPoint TAB mainPath (padTo 2 outerArgs) innerArgs) parameters)"

text \<open>
  The outer parameter of a slot of the purpose's contract: the name the source gives the
  argument when \<^verbatim>\<open>main\<close> declares that type, the discarded placeholder otherwise. The
  inner argument of a declared argument of \<^verbatim>\<open>main\<close>.
\<close>

definition slot :: "string list \<Rightarrow> string \<Rightarrow> string \<Rightarrow> IR" where
  "slot argTypeNames typeName var = (if typeName \<in> set argTypeNames then IR var else IR ''_'')"

definition innerArg :: "string \<Rightarrow> IR" where
  "innerArg t =
     (if t = ''Datum'' then IR ''datum''
      else if t = ''Redeemer'' then IR ''redeemer''
      else if t = ''ScriptContext'' then IR ''ctx''
      else IR ''0'')"

text \<open>The predicates of the entry-point contract, in the words of the specification.\<close>

definition named :: "string list \<Rightarrow> string list" where
  "named argTypeNames = filter (\<lambda>t. t \<noteq> []) argTypeNames"

definition rank :: "string \<Rightarrow> nat" where
  "rank t = (if t = ''Datum'' then 0 else if t = ''Redeemer'' then 1 else 2)"

definition otherTypeName :: "string list \<Rightarrow> bool" where
  "otherTypeName argTypeNames =
     list_ex (\<lambda>t. t \<noteq> ''Datum'' \<and> t \<noteq> ''Redeemer'' \<and> t \<noteq> ''ScriptContext'') (named argTypeNames)"

definition declaredTwice :: "string list \<Rightarrow> bool" where
  "declaredTwice argTypeNames = (\<not> distinct (named argTypeNames))"

definition outOfOrder :: "string list \<Rightarrow> bool" where
  "outOfOrder argTypeNames = (\<not> sorted (map rank (named argTypeNames)))"

definition violatesContract :: "string list \<Rightarrow> bool" where
  "violatesContract argTypeNames =
     (length argTypeNames > 3 \<or> otherTypeName argTypeNames \<or> declaredTwice argTypeNames
      \<or> outOfOrder argTypeNames)"

definition returnsOneBool :: "('ty \<Rightarrow> bool) \<Rightarrow> 'ty list \<Rightarrow> bool" where
  "returnsOneBool BoolType_isBaseOf mainRetTypes =
     (case mainRetTypes of [t] \<Rightarrow> BoolType_isBaseOf t | _ \<Rightarrow> False)"


text \<open>
  The argument lists the two validations accept, written out (shown below to be exactly
  those): without underscores any sublist of the contract in order, with underscores the
  full arity with every type at its own position.
\<close>

definition accepted3 :: "string list list" where
  "accepted3 =
     [[], [''Datum''], [''Redeemer''], [''ScriptContext''],
      [''Datum'', ''Redeemer''], [''Datum'', ''ScriptContext''], [''Redeemer'', ''ScriptContext''],
      [''Datum'', ''Redeemer'', ''ScriptContext''],
      [[], [], []], [''Datum'', [], []], [[], ''Redeemer'', []], [[], [], ''ScriptContext''],
      [''Datum'', ''Redeemer'', []], [''Datum'', [], ''ScriptContext''],
      [[], ''Redeemer'', ''ScriptContext'']]"

definition accepted2 :: "string list list" where
  "accepted2 =
     [[], [''Redeemer''], [''ScriptContext''], [''Redeemer'', ''ScriptContext''],
      [[], []], [''Redeemer'', []], [[], ''ScriptContext'']]"


text \<open>A program with one constant, for the examples of the parameter interface.\<close>

definition exampleProgram :: Program where
  "exampleProgram =
     \<lparr>purpose = Testing,
      modules = [\<lparr>name = ''m'', statements = [ConstStatement ''A'', FuncStatement ''main''],
                  isMainModule = True\<rparr>]\<rparr>"

text \<open>
  The definitions between two iterations of \<^verbatim>\<open>injectMutualRecursions\<close>, for the proof: when
  the iterations for the positions \<open>j\<close> and above have run, the occurrences of the keys at
  these positions are rewritten and the definitions at these positions are wrapped.
\<close>

definition rewriteFrom :: "string list \<Rightarrow> nat \<Rightarrow> IRText \<Rightarrow> IRText" where
  "rewriteFrom keys j ir =
     concat (map (\<lambda>t. case t of
                    Word w \<Rightarrow> (case keyIndex w keys of
                                 None \<Rightarrow> [t]
                               | Some i \<Rightarrow> if j \<le> i then application w (drop i keys) else [t])
                  | Other s \<Rightarrow> [t]) ir)"

definition injectedFrom_entry :: "string list \<Rightarrow> nat \<Rightarrow> string \<times> IRText \<Rightarrow> string \<times> IRText" where
  "injectedFrom_entry keys j e =
     (fst e,
      case keyIndex (fst e) keys of
        None \<Rightarrow> rewriteFrom keys j (snd e)
      | Some i \<Rightarrow> if j \<le> i then wrapped (drop i keys) (rewriteFrom keys j (snd e))
                  else rewriteFrom keys j (snd e))"

text \<open>Two definitions that refer to each other.\<close>

definition exampleDefinitions :: "(string \<times> IRText) list" where
  "exampleDefinitions =
     [(''f'', [Word ''g'', Other ''()'']),
      (''g'', [Word ''f'', Other '' + '', Word ''h''])]"

text \<open>
  The import graph, for the statements about cycles: the names a module imports, the
  module of a list a name resolves to (\<^verbatim>\<open>modules.find(m => m.name.value == mn)\<close>), and the
  edges from a module to the modules its imports resolve to. \<open>wellImported\<close>: no import
  of the module names the module itself, and every import resolves.
\<close>

definition imports_of :: "Module \<Rightarrow> string list" where
  "imports_of m = List.map_filter moduleName (statements m)"

definition resolveModule :: "Module list \<Rightarrow> string \<Rightarrow> Module option" where
  "resolveModule ms n = find (\<lambda>m. name m = n) ms"

definition importGraph :: "Module list \<Rightarrow> (Module \<times> Module) set" where
  "importGraph ms = {(m, m'). \<exists>n \<in> set (imports_of m). resolveModule ms n = Some m'}"

definition wellImported :: "Module list \<Rightarrow> Module \<Rightarrow> bool" where
  "wellImported ms m = list_all (\<lambda>n. n \<noteq> name m \<and> resolveModule ms n \<noteq> None) (imports_of m)"

text \<open>
  The modules a call \<^verbatim>\<open>this.filterDependencies(modules, stack)\<close> knows of: the candidate set,
  and after it the module itself and the modules on the stack, which need not be in the
  candidate set (\<^verbatim>\<open>Program.new\<close> resolves the main module against the other modules). In
  the import graph of this list an import of the name of a module being resolved is an
  edge to a module of that name.
\<close>

definition knownModules :: "Module list \<Rightarrow> Module \<Rightarrow> Module list \<Rightarrow> Module list" where
  "knownModules ms this stack = ms @ this # stack"

text \<open>
  What holds of the dependencies collected so far, for the proof: each is the module its
  name resolves to, and every module reachable from it is collected too, has a name outside
  the set \<open>S\<close> of the names on the stack, and lies on no import cycle.
\<close>

definition depsInv :: "Module list \<Rightarrow> string set \<Rightarrow> Module list \<Rightarrow> bool" where
  "depsInv ms S deps =
     (\<forall>d \<in> set deps. resolveModule ms (name d) = Some d
        \<and> (\<forall>m'. (d, m') \<in> (importGraph ms)\<^sup>* \<longrightarrow>
              name m' \<notin> S \<and> m' \<in> set deps \<and> (m', m') \<notin> (importGraph ms)\<^sup>+))"

definition targets :: "Module list \<Rightarrow> Statement list \<Rightarrow> Module set" where
  "targets ms ss =
     {m. \<exists>n \<in> set (List.map_filter moduleName ss).
           \<exists>m0. resolveModule ms n = Some m0 \<and> (m0, m) \<in> (importGraph ms)\<^sup>*}"

text \<open>
  A main module that imports \<^verbatim>\<open>A\<close>, with \<^verbatim>\<open>A\<close> importing \<^verbatim>\<open>B\<close> and \<^verbatim>\<open>B\<close> importing from the
  main module; a module that imports itself after a constant; and a module that imports
  itself after a module nobody supplies.
\<close>

definition moduleA :: Module where
  "moduleA = \<lparr>name = ''A'', statements = [ImportModuleStatement ''B''], isMainModule = False\<rparr>"

definition moduleB :: Module where
  "moduleB = \<lparr>name = ''B'', statements = [ImportFromStatement ''x'' ''x'' ''main''],
              isMainModule = False\<rparr>"

definition moduleMain :: Module where
  "moduleMain = \<lparr>name = ''main'', statements = [ImportModuleStatement ''A'', FuncStatement ''main''],
                 isMainModule = True\<rparr>"

definition moduleSelf :: Module where
  "moduleSelf = \<lparr>name = ''S'', statements = [ConstStatement ''c'', ImportModuleStatement ''S''],
                 isMainModule = False\<rparr>"

definition moduleLate :: Module where
  "moduleLate = \<lparr>name = ''X'',
                 statements = [ImportModuleStatement ''Z'', ImportModuleStatement ''X''],
                 isMainModule = False\<rparr>"

section \<open>Struct statements (helios-ast-statements.js)\<close>

















section \<open>Subtyping of the builtin types: theorems\<close>

lemma enumMembers_leaf: "m \<in> set (enumMembers c) \<Longrightarrow> enumMembers m = []"
  by (cases c) auto

lemma isBaseOf_refl: "catalogue A \<Longrightarrow> isBaseOf A A = Inr True"
  by (induction A) (auto simp: and_also_def or_else_def)

lemma isBaseOf_antisym:
  "catalogue A \<Longrightarrow> catalogue B \<Longrightarrow> isBaseOf A B = Inr True \<Longrightarrow> isBaseOf B A = Inr True \<Longrightarrow> A = B"
proof (induction A arbitrary: B)
  case (Builtin c)
  then show ?case by (cases B) (auto simp: list_ex_iff or_else_def dest: enumMembers_leaf)
next
  case (ListType A)
  then show ?case by (cases B) auto
next
  case (MapType A1 A2)
  then show ?case by (cases B) (auto simp: and_also_def split: sum.splits if_splits)
next
  case (OptionType A)
  then show ?case by (cases B) (auto simp: or_else_def split: sum.splits if_splits)
next
  case (OptionSomeType A)
  then show ?case by (cases B) (auto simp: or_else_def split: sum.splits if_splits)
next
  case (OptionNoneType A)
  then show ?case by (cases B) (auto simp: or_else_def split: sum.splits if_splits)
next
  case (StatementType p)
  then show ?case by (cases B) (auto simp: or_else_def split: sum.splits if_splits)
next
  case (ParamTypeRef n)
  then show ?case by simp
next
  case AnyType
  then show ?case by simp
next
  case AnyDataType
  then show ?case by (cases B) (auto simp: list_ex_iff or_else_def split: sum.splits if_splits)
qed

text \<open>
  Claim C7. For builtin types \<open>A\<close> and \<open>B\<close> of the catalogue, \<^verbatim>\<open>A.isBaseOf(B)\<close> and
  \<^verbatim>\<open>B.isBaseOf(A)\<close> are both true if and only if \<open>A\<close> and \<open>B\<close> are the same builtin variant
  with the same contained types (item type of a list, key and value type of a map, content
  type of an option).
\<close>

theorem builtin_same_iff_identical:
  "is_builtin A \<Longrightarrow> is_builtin B \<Longrightarrow> catalogue A \<Longrightarrow> catalogue B \<Longrightarrow>
     (isBaseOf A B = Inr True \<and> isBaseOf B A = Inr True) \<longleftrightarrow> A = B"
  using isBaseOf_refl isBaseOf_antisym by blast

text \<open>
  The theorem at two pairs: a map of the catalogue against itself, and an option type
  against its own \<^verbatim>\<open>Some\<close> member, which it is a base of in one direction only.
\<close>

theorem builtin_same_iff_identical_witness:
  "is_builtin (MapType (Builtin ScriptPurposeType) AnyDataType)
   \<and> catalogue (MapType (Builtin ScriptPurposeType) AnyDataType)
   \<and> isBaseOf (MapType (Builtin ScriptPurposeType) AnyDataType)
        (MapType (Builtin ScriptPurposeType) AnyDataType) = Inr True
   \<and> is_builtin (OptionType (Builtin IntType)) \<and> catalogue (OptionType (Builtin IntType))
   \<and> is_builtin (OptionSomeType (Builtin IntType)) \<and> catalogue (OptionSomeType (Builtin IntType))
   \<and> isBaseOf (OptionType (Builtin IntType)) (OptionSomeType (Builtin IntType)) = Inr True
   \<and> isBaseOf (OptionSomeType (Builtin IntType)) (OptionType (Builtin IntType)) \<noteq> Inr True"
  using builtin_same_iff_identical [of "MapType (Builtin ScriptPurposeType) AnyDataType"
      "MapType (Builtin ScriptPurposeType) AnyDataType"]
    builtin_same_iff_identical [of "OptionType (Builtin IntType)" "OptionSomeType (Builtin IntType)"]
  by (simp add: or_else_def)

section \<open>Validation of the entry point: theorems\<close>

lemma list_upto3:
  obtains "xs = []" | a where "xs = [a]" | a b where "xs = [a, b]" | a b c where "xs = [a, b, c]"
    | "length xs > 3"
  by (cases xs; cases "tl xs"; cases "tl (tl xs)"; cases "tl (tl (tl xs))") auto

lemma DatumRedeemer_accepts_iff:
  "(\<exists>w. DatumRedeemerProgram_evalTypesInternal isB str names rets = Inr w)
     \<longleftrightarrow> names \<in> set accepted3 \<and> returnsOneBool isB rets"
proof (cases names rule: list_upto3)
  case 1
  then show ?thesis
    by (auto simp: DatumRedeemerProgram_evalTypesInternal_def accepted3_def returnsOneBool_def
        checkRetTypes_def Let_def split: list.splits if_splits sum.splits)
next
  case (2 a)
  then show ?thesis
    by (auto simp: DatumRedeemerProgram_evalTypesInternal_def accepted3_def returnsOneBool_def
        checkRetTypes_def Let_def split: list.splits if_splits sum.splits)
next
  case (3 a b)
  then show ?thesis
    by (auto simp: DatumRedeemerProgram_evalTypesInternal_def accepted3_def returnsOneBool_def
        checkRetTypes_def Let_def split: list.splits if_splits sum.splits)
next
  case (4 a b c)
  then show ?thesis
    by (auto simp: DatumRedeemerProgram_evalTypesInternal_def accepted3_def returnsOneBool_def
        checkRetTypes_def Let_def split: list.splits if_splits sum.splits)
next
  case 5
  then show ?thesis
    by (auto simp: DatumRedeemerProgram_evalTypesInternal_def accepted3_def returnsOneBool_def Let_def)
qed


lemma Redeemer_accepts_iff:
  "(\<exists>w. RedeemerProgram_evalTypesInternal isB str names rets = Inr w)
     \<longleftrightarrow> names \<in> set accepted2 \<and> returnsOneBool isB rets"
proof (cases names rule: list_upto3)
  case 1
  then show ?thesis
    by (auto simp: RedeemerProgram_evalTypesInternal_def accepted2_def returnsOneBool_def
        checkRetTypes_def Let_def split: list.splits if_splits sum.splits)
next
  case (2 a)
  then show ?thesis
    by (auto simp: RedeemerProgram_evalTypesInternal_def accepted2_def returnsOneBool_def
        checkRetTypes_def Let_def split: list.splits if_splits sum.splits)
next
  case (3 a b)
  then show ?thesis
    by (auto simp: RedeemerProgram_evalTypesInternal_def accepted2_def returnsOneBool_def
        checkRetTypes_def Let_def split: list.splits if_splits sum.splits)
next
  case (4 a b c)
  then show ?thesis
    by (auto simp: RedeemerProgram_evalTypesInternal_def accepted2_def returnsOneBool_def Let_def)
next
  case 5
  then show ?thesis
    by (auto simp: RedeemerProgram_evalTypesInternal_def accepted2_def returnsOneBool_def Let_def)
qed

lemma DatumRedeemer_checkArgs_TypeError:
  "DatumRedeemer_checkArgs hu i d r s names = Inl e \<Longrightarrow> isTypeError e"
  by (induction names arbitrary: i d r s) (auto split: if_splits)

lemma checkRetTypes_TypeError:
  "checkRetTypes isB str rets = Inl e \<Longrightarrow> isTypeError e"
  by (auto simp: checkRetTypes_def split: list.splits if_splits)

lemma checkRetTypes_ok:
  "(checkRetTypes isB str rets = Inr u) = returnsOneBool isB rets"
  by (auto simp: checkRetTypes_def returnsOneBool_def split: list.splits if_splits)

lemma DatumRedeemer_error_kinds:
  assumes "DatumRedeemerProgram_evalTypesInternal isB str names rets = Inl e"
  shows "isTypeError e \<or> (e = PlainError ''expected 3 args'' \<and> list_ex (\<lambda>n. n = []) names \<and> length names < 3)"
  using assms
  by (auto simp: DatumRedeemerProgram_evalTypesInternal_def Let_def
      split: if_splits sum.splits
      dest: DatumRedeemer_checkArgs_TypeError checkRetTypes_TypeError)

lemma accepted3_no_violation: "names \<in> set accepted3 \<Longrightarrow> \<not> violatesContract names"
  by (auto simp: accepted3_def violatesContract_def otherTypeName_def declaredTwice_def
      outOfOrder_def named_def rank_def)

lemma isTypeError_iff: "isTypeError e = (\<exists>msg. e = TypeError msg)"
  by (cases e) auto

text \<open>
  Claim C1. For a Spending program, \<^verbatim>\<open>main\<close> typed \<^verbatim>\<open>Datum, Redeemer, ScriptContext\<close> in
  that order and returning one \<^verbatim>\<open>Bool\<close> passes the validation without a warning. An argument
  list that has more than three arguments, uses another type name, declares a type name
  twice or has the type names out of order, or a \<^verbatim>\<open>main\<close> that does not return exactly one
  \<^verbatim>\<open>Bool\<close>, is a type error, as long as the list is not one with an underscore and fewer
  than three arguments. On those lists the code does not keep to this: where every other
  check of the method throws \<^verbatim>\<open>main.typeError\<close>, also the one on too many arguments just
  above it, the count is checked there by \<^verbatim>\<open>assert\<close>, which fails before any argument is
  looked at, so the error thrown is the plain error of a failed assertion, whatever else
  the list holds.
\<close>

theorem spending_entry_validation:
  "(returnsOneBool isB rets \<longrightarrow>
      DatumRedeemerProgram_evalTypesInternal isB str [''Datum'', ''Redeemer'', ''ScriptContext''] rets
        = Inr [])
   \<and> ((violatesContract names \<or> \<not> returnsOneBool isB rets)
        \<and> \<not> (list_ex (\<lambda>n. n = []) names \<and> length names < 3) \<longrightarrow>
      (\<exists>msg. DatumRedeemerProgram_evalTypesInternal isB str names rets = Inl (TypeError msg)))
   \<and> (list_ex (\<lambda>n. n = []) names \<and> length names < 3 \<longrightarrow>
      DatumRedeemerProgram_evalTypesInternal isB str names rets
        = Inl (PlainError ''expected 3 args''))"
proof (intro conjI impI)
  assume "returnsOneBool isB rets"
  then show "DatumRedeemerProgram_evalTypesInternal isB str [''Datum'', ''Redeemer'', ''ScriptContext''] rets = Inr []"
    by (auto simp: DatumRedeemerProgram_evalTypesInternal_def checkRetTypes_def returnsOneBool_def
        split: list.splits)
next
  assume a: "(violatesContract names \<or> \<not> returnsOneBool isB rets)
      \<and> \<not> (list_ex (\<lambda>n. n = []) names \<and> length names < 3)"
  have "\<not> (\<exists>w. DatumRedeemerProgram_evalTypesInternal isB str names rets = Inr w)"
    using a accepted3_no_violation unfolding DatumRedeemer_accepts_iff by blast
  then obtain e where e: "DatumRedeemerProgram_evalTypesInternal isB str names rets = Inl e"
    by (cases "DatumRedeemerProgram_evalTypesInternal isB str names rets") auto
  from DatumRedeemer_error_kinds [OF e] a have "isTypeError e" by blast
  with e show "\<exists>msg. DatumRedeemerProgram_evalTypesInternal isB str names rets = Inl (TypeError msg)"
    by (simp add: isTypeError_iff)
next
  assume "list_ex (\<lambda>n. n = []) names \<and> length names < 3"
  then show "DatumRedeemerProgram_evalTypesInternal isB str names rets = Inl (PlainError ''expected 3 args'')"
    by (simp add: DatumRedeemerProgram_evalTypesInternal_def)
qed

text \<open>
  The theorem at concrete argument lists: the accepted one, \<^verbatim>\<open>main(r: Redeemer, d: Datum)\<close>,
  which is out of order and a type error, and \<^verbatim>\<open>main(_, x: Int)\<close>, which uses another type
  name and fails the assertion instead.
\<close>

theorem spending_entry_validation_witness:
  "violatesContract [''Redeemer'', ''Datum'']
   \<and> returnsOneBool (\<lambda>b. b) [True]
   \<and> DatumRedeemerProgram_evalTypesInternal (\<lambda>b. b) (\<lambda>b. ''Bool'')
        [''Datum'', ''Redeemer'', ''ScriptContext''] [True] = Inr []
   \<and> (\<exists>msg. DatumRedeemerProgram_evalTypesInternal (\<lambda>b. b) (\<lambda>b. ''Bool'')
        [''Redeemer'', ''Datum''] [True] = Inl (TypeError msg))
   \<and> otherTypeName [[], ''Int'']
   \<and> DatumRedeemerProgram_evalTypesInternal (\<lambda>b. b) (\<lambda>b. ''Bool'') [[], ''Int''] [True]
        = Inl (PlainError ''expected 3 args'')"
proof -
  have v: "violatesContract [''Redeemer'', ''Datum'']"
    by (simp add: violatesContract_def outOfOrder_def named_def rank_def)
  have r: "returnsOneBool (\<lambda>b. b) [True]"
    by (simp add: returnsOneBool_def)
  have o: "otherTypeName [[], ''Int'']"
    by (simp add: otherTypeName_def named_def)
  note t = spending_entry_validation [of "\<lambda>b. b" "[True]" "\<lambda>b. ''Bool''"]
  from t [of "[''Redeemer'', ''Datum'']"] v r o t [of "[[], ''Int'']"]
  show ?thesis by simp
qed

section \<open>Lowering of the entry point: theorems\<close>

lemma generateSource_join:
  "generateSource (IR_join sep irs) = concat (intersperse sep (map generateSource irs))"
  by (induction irs rule: induct_list012) (auto simp: IR_join_def)

lemma DatumRedeemer_lowering:
  assumes "names \<in> set accepted3"
  shows "DatumRedeemerProgram_toIR wrapEntryPoint TAB mainPath names ps =
     wrapEntryPoint (entryPoint TAB mainPath
        [slot names ''Datum'' ''datum'', slot names ''Redeemer'' ''redeemer'',
         slot names ''ScriptContext'' ''ctx'']
        (map innerArg names)) ps"
  using assms
  by (auto simp: accepted3_def DatumRedeemerProgram_toIR_def padTo_def slot_def innerArg_def
      numeral_2_eq_2 numeral_3_eq_3)

lemma Redeemer_lowering:
  assumes "names \<in> set accepted2"
  shows "RedeemerProgram_toIR wrapEntryPoint TAB mainPath names ps =
     wrapEntryPoint (entryPoint TAB mainPath
        [slot names ''Redeemer'' ''redeemer'', slot names ''ScriptContext'' ''ctx'']
        (map innerArg names)) ps"
  using assms
  by (auto simp: accepted2_def RedeemerProgram_toIR_def padTo_def slot_def innerArg_def
      numeral_2_eq_2 numeral_3_eq_3)

text \<open>
  Claim C2. For a program that passed the validation of its entry point, \<^verbatim>\<open>toIR\<close> hands
  \<^verbatim>\<open>wrapEntryPoint\<close> an entry point whose outer parameter list has exactly the arity of the
  purpose: three slots for a Spending program, two for a Minting or Staking program, each
  slot holding the argument \<^verbatim>\<open>main\<close> declares for it or the discarded placeholder \<^verbatim>\<open>_\<close>.
  The inner arguments are those \<^verbatim>\<open>main\<close> declares, in its order. The source text of the
  entry point applies \<^verbatim>\<open>main\<close> to itself and then to the inner arguments, inside
  \<^verbatim>\<open>__core__ifThenElse\<close> with the unit result in the first branch and
  \<^verbatim>\<open>error("transaction rejected")\<close> in the second.
\<close>

theorem entry_point_lowering:
  "(DatumRedeemerProgram_evalTypesInternal isB str names rets = Inr w \<longrightarrow>
      DatumRedeemerProgram_toIR wrapEntryPoint TAB mainPath names ps =
        wrapEntryPoint (entryPoint TAB mainPath
          [slot names ''Datum'' ''datum'', slot names ''Redeemer'' ''redeemer'',
           slot names ''ScriptContext'' ''ctx'']
          (map innerArg names)) ps)
   \<and> (RedeemerProgram_evalTypesInternal isB str names rets = Inr w \<longrightarrow>
      RedeemerProgram_toIR wrapEntryPoint TAB mainPath names ps =
        wrapEntryPoint (entryPoint TAB mainPath
          [slot names ''Redeemer'' ''redeemer'', slot names ''ScriptContext'' ''ctx'']
          (map innerArg names)) ps)
   \<and> generateSource (entryPoint TAB mainPath outerArgs innerArgs) =
        TAB @ ''/*entry point*/'' @ nl @ TAB @ ''(''
        @ concat (intersperse '', '' (map generateSource outerArgs))
        @ '') -> {'' @ nl @ TAB @ TAB
        @ ''__core__ifThenElse('' @ nl @ TAB @ TAB @ TAB @ mainPath @ ''('' @ mainPath @ '')(''
        @ concat (intersperse '', '' (map generateSource innerArgs))
        @ ''),'' @ nl @ TAB @ TAB @ TAB @ ''() -> {()},'' @ nl @ TAB @ TAB @ TAB
        @ ''() -> {error('' @ dq @ ''transaction rejected'' @ dq @ '')}'' @ nl
        @ TAB @ TAB @ '')()'' @ nl @ TAB @ ''}''"
proof (intro conjI impI)
  assume "DatumRedeemerProgram_evalTypesInternal isB str names rets = Inr w"
  then have "names \<in> set accepted3" using DatumRedeemer_accepts_iff by blast
  then show "DatumRedeemerProgram_toIR wrapEntryPoint TAB mainPath names ps =
        wrapEntryPoint (entryPoint TAB mainPath
          [slot names ''Datum'' ''datum'', slot names ''Redeemer'' ''redeemer'',
           slot names ''ScriptContext'' ''ctx'']
          (map innerArg names)) ps"
    by (rule DatumRedeemer_lowering)
next
  assume "RedeemerProgram_evalTypesInternal isB str names rets = Inr w"
  then have "names \<in> set accepted2" using Redeemer_accepts_iff by blast
  then show "RedeemerProgram_toIR wrapEntryPoint TAB mainPath names ps =
        wrapEntryPoint (entryPoint TAB mainPath
          [slot names ''Redeemer'' ''redeemer'', slot names ''ScriptContext'' ''ctx'']
          (map innerArg names)) ps"
    by (rule Redeemer_lowering)
next
  show "generateSource (entryPoint TAB mainPath outerArgs innerArgs) =
        TAB @ ''/*entry point*/'' @ nl @ TAB @ ''(''
        @ concat (intersperse '', '' (map generateSource outerArgs))
        @ '') -> {'' @ nl @ TAB @ TAB
        @ ''__core__ifThenElse('' @ nl @ TAB @ TAB @ TAB @ mainPath @ ''('' @ mainPath @ '')(''
        @ concat (intersperse '', '' (map generateSource innerArgs))
        @ ''),'' @ nl @ TAB @ TAB @ TAB @ ''() -> {()},'' @ nl @ TAB @ TAB @ TAB
        @ ''() -> {error('' @ dq @ ''transaction rejected'' @ dq @ '')}'' @ nl
        @ TAB @ TAB @ '')()'' @ nl @ TAB @ ''}''"
    by (simp add: entryPoint_def generateSource_join)
qed

text \<open>
  The theorem at a Spending program with \<^verbatim>\<open>main(r: Redeemer)\<close> and at a Minting program with
  \<^verbatim>\<open>main(_, ctx: ScriptContext)\<close>.
\<close>

theorem entry_point_lowering_witness:
  "DatumRedeemerProgram_evalTypesInternal (\<lambda>b. b) (\<lambda>b. ''Bool'') [''Redeemer''] [True]
     = Inr [deprecation]
   \<and> DatumRedeemerProgram_toIR (\<lambda>ir ps. Inr ir) ''  '' ''__user__main'' [''Redeemer''] []
     = Inr (entryPoint ''  '' ''__user__main'' [IR ''_'', IR ''redeemer'', IR ''_''] [IR ''redeemer''])
   \<and> RedeemerProgram_evalTypesInternal (\<lambda>b. b) (\<lambda>b. ''Bool'') [[], ''ScriptContext''] [True]
     = Inr []
   \<and> RedeemerProgram_toIR (\<lambda>ir ps. Inr ir) ''  '' ''__user__main'' [[], ''ScriptContext''] []
     = Inr (entryPoint ''  '' ''__user__main'' [IR ''_'', IR ''ctx''] [IR ''0'', IR ''ctx''])"
proof -
  have a: "DatumRedeemerProgram_evalTypesInternal (\<lambda>b. b) (\<lambda>b. ''Bool'') [''Redeemer''] [True]
     = Inr [deprecation]"
    by (simp add: DatumRedeemerProgram_evalTypesInternal_def checkRetTypes_def)
  have b: "RedeemerProgram_evalTypesInternal (\<lambda>b. b) (\<lambda>b. ''Bool'') [[], ''ScriptContext''] [True]
     = Inr []"
    by (simp add: RedeemerProgram_evalTypesInternal_def checkRetTypes_def)
  from a b
    entry_point_lowering [of "\<lambda>b. b" "\<lambda>b. ''Bool''" "[''Redeemer'']" "[True]" "[deprecation]"
      "\<lambda>ir ps. Inr ir" "''  ''" "''__user__main''" "[]"]
    entry_point_lowering [of "\<lambda>b. b" "\<lambda>b. ''Bool''" "[[], ''ScriptContext'']" "[True]" "[]"
      "\<lambda>ir ps. Inr ir" "''  ''" "''__user__main''" "[]"]
  show ?thesis by (simp add: slot_def innerArg_def)
qed

section \<open>Call checking: theorems\<close>

lemma checkNamedCover_hasProperty:
  "(checkNamedCover f n namedArgs ats = Inr u)
     = list_all (\<lambda>at. isNamed at \<and> hasProperty namedArgs (ArgType_name at)) ats"
  by (induction ats) auto

lemma checkNamedCover_Inr:
  "\<not> list_ex (\<lambda>at. ArgType_name at \<in> set Object_prototype_keys) ats \<Longrightarrow>
   (checkNamedCover f n namedArgs ats = Inr u) = list_all (coveredByName namedArgs) ats"
  unfolding checkNamedCover_hasProperty
  by (induction ats) (auto simp: coveredByName_def hasProperty_def)

lemma noInheritedName_take:
  "noInheritedName f \<Longrightarrow>
   \<not> list_ex (\<lambda>at. ArgType_name at \<in> set Object_prototype_keys) (take n (argTypes f))"
  unfolding noInheritedName_def list_ex_iff
  by (blast dest: in_set_takeD)

lemma checkNamedCover_Inl:
  "checkNamedCover f n namedArgs ats = Inl e \<Longrightarrow> isTypeError e"
  by (induction ats) (auto split: if_splits)

lemma checkPosArgs_Inr:
  "length posArgs \<le> length ats \<Longrightarrow>
   (checkPosArgs inst ts is i posArgs ats = Inr u)
     = (\<not> list_ex (\<lambda>(a, at). \<not> inst a (argType at)) (zip posArgs ats))"
  by (induction inst ts "is" i posArgs ats rule: checkPosArgs.induct) auto

lemma checkPosArgs_Inl:
  "length posArgs \<le> length ats \<Longrightarrow> checkPosArgs inst ts is i posArgs ats = Inl e \<Longrightarrow> isTypeError e"
  by (induction inst ts "is" i posArgs ats rule: checkPosArgs.induct) (auto split: if_splits)

lemma checkNamedArgs_all:
  "(checkNamedArgs inst ts is fs f nPos namedArgs = Inr u)
     = list_all (\<lambda>(key, a). case declaredIndex f key of None \<Rightarrow> False
          | Some i \<Rightarrow> \<not> i < nPos \<and> inst a (argType (argTypes f ! i))) namedArgs"
proof (induction namedArgs)
  case Nil
  show ?case by simp
next
  case (Cons x namedArgs)
  obtain key a where x: "x = (key, a)" by (cases x)
  show ?case
  proof (cases "declaredIndex f key")
    case None
    with x show ?thesis by (simp add: declaredIndex_def)
  next
    case (Some i)
    with x Cons.IH show ?thesis by (simp add: declaredIndex_def)
  qed
qed

lemma checkNamedArgs_Inr:
  "(checkNamedArgs inst ts is fs f nPos namedArgs = Inr u)
     = (\<not> list_ex (\<lambda>(key, a). declaredIndex f key = None) namedArgs
        \<and> \<not> list_ex (\<lambda>(key, a). case declaredIndex f key of None \<Rightarrow> False | Some i \<Rightarrow> i < nPos) namedArgs
        \<and> \<not> list_ex (\<lambda>(key, a). case declaredIndex f key of None \<Rightarrow> False
                | Some i \<Rightarrow> \<not> inst a (argType (argTypes f ! i))) namedArgs)"
  unfolding checkNamedArgs_all list_all_iff list_ex_iff
  by (auto split: option.splits)

lemma checkNamedArgs_Inl:
  "checkNamedArgs inst ts is fs f nPos namedArgs = Inl e \<Longrightarrow> isTypeError e"
  by (induction namedArgs) (auto split: option.splits if_splits)

lemma nNonOptArgs_le: "nNonOptArgs f \<le> length (argTypes f)"
  by (simp add: nNonOptArgs_def)

lemma checkCall_Inl:
  assumes "checkCall inst ts is fs f posArgs namedArgs = Inl e"
  shows "isTypeError e"
proof -
  have len: "\<not> length (argTypes f) < length posArgs \<Longrightarrow> length posArgs \<le> length (argTypes f)"
    by simp
  have len': "length posArgs < nNonOptArgs f \<Longrightarrow> length posArgs \<le> length (argTypes f)"
    using nNonOptArgs_le [of f] by simp
  from assms show ?thesis
    by (auto simp: checkCall_def split: if_splits sum.splits
        dest: checkNamedCover_Inl checkNamedArgs_Inl checkPosArgs_Inl [OF len] checkPosArgs_Inl [OF len'])
qed

lemma checkCall_Inr:
  assumes ni: "noInheritedName f"
  shows "(checkCall inst ts is fs f posArgs namedArgs = Inr rs)
     = (rs = retTypes f \<and> \<not> callRejected inst f posArgs namedArgs)"
proof (cases "length posArgs \<le> length (argTypes f)")
  case False
  then show ?thesis
    using nNonOptArgs_le [of f]
    by (auto simp: checkCall_def callRejected_def tooManyPositional_def)
next
  case True
  have cover: "\<And>u. (checkNamedCover f (length posArgs) namedArgs (take (nNonOptArgs f) (argTypes f)) = Inr u)
      = list_all (coveredByName namedArgs) (take (nNonOptArgs f) (argTypes f))"
    by (rule checkNamedCover_Inr [OF noInheritedName_take [OF ni]])
  have pos: "\<And>u. (checkPosArgs inst ts is 0 posArgs (argTypes f) = Inr u)
      = (\<not> badPositional inst f posArgs)"
    using checkPosArgs_Inr [OF True] by (simp add: badPositional_def)
  have nam: "\<And>u. (checkNamedArgs inst ts is fs f (length posArgs) namedArgs = Inr u)
      = (\<not> unknownName f namedArgs \<and> \<not> alreadyCovered f posArgs namedArgs
         \<and> \<not> badNamed inst f namedArgs)"
    by (simp add: checkNamedArgs_Inr unknownName_def alreadyCovered_def badNamed_def)
  show ?thesis
  proof (cases "length posArgs < nNonOptArgs f")
    case lt: True
    show ?thesis
      using True lt cover pos nam
      by (auto simp: checkCall_def callRejected_def tooManyPositional_def tooFewPositional_def
          split: sum.splits)
  next
    case ge: False
    show ?thesis
      using True ge pos nam
      by (auto simp: checkCall_def callRejected_def tooManyPositional_def tooFewPositional_def
          split: sum.splits)
  qed
qed

text \<open>
  Claim C6, as the code has it by design. Take a function type none of whose argument
  names is the name of a property every plain object inherits. Then \<^verbatim>\<open>checkCall\<close> raises a
  type error when fewer positional arguments are supplied than there are non-optional
  arguments, unless every one of the first \<^verbatim>\<open>nNonOptArgs\<close> declared arguments is named and
  passed by name; when more positional arguments are supplied than arguments are declared;
  when a positional or named argument is not an instance of the declared type; when a
  named argument corresponds to no declared argument; or when a named argument corresponds
  to a position a positional argument already covers. In every other case it returns the
  declared return types.
\<close>

theorem checkCall_rejects_or_returns:
  assumes "noInheritedName f"
  shows "(callRejected inst f posArgs namedArgs \<longrightarrow>
      (\<exists>msg. checkCall inst ts is fs f posArgs namedArgs = Inl (TypeError msg)))
   \<and> (\<not> callRejected inst f posArgs namedArgs \<longrightarrow>
      checkCall inst ts is fs f posArgs namedArgs = Inr (retTypes f))"
proof (intro conjI impI)
  assume r: "callRejected inst f posArgs namedArgs"
  then have "\<And>rs. checkCall inst ts is fs f posArgs namedArgs \<noteq> Inr rs"
    by (simp add: checkCall_Inr [OF assms])
  then obtain e where e: "checkCall inst ts is fs f posArgs namedArgs = Inl e"
    by (cases "checkCall inst ts is fs f posArgs namedArgs") auto
  from checkCall_Inl [OF e] obtain msg where "e = TypeError msg" by (cases e) auto
  with e show "\<exists>msg. checkCall inst ts is fs f posArgs namedArgs = Inl (TypeError msg)" by simp
next
  assume "\<not> callRejected inst f posArgs namedArgs"
  then show "checkCall inst ts is fs f posArgs namedArgs = Inr (retTypes f)"
    by (simp add: checkCall_Inr [OF assms])
qed

text \<open>
  The theorem at \<^verbatim>\<open>f(b: ..., a: ...)\<close>, which is accepted, and at a call with a second
  positional argument of the wrong type.
\<close>

theorem checkCall_rejects_or_returns_witness:
  "noInheritedName exampleFunc
   \<and> \<not> callRejected (=) exampleFunc [] [(''b'', ''Int''), (''a'', ''Int'')]
   \<and> checkCall (=) id id ''(a: Int, b: Int) -> Bool'' exampleFunc [] [(''b'', ''Int''), (''a'', ''Int'')]
       = Inr [''Bool'']
   \<and> callRejected (=) exampleFunc [''Int'', ''String''] []
   \<and> (\<exists>msg. checkCall (=) id id ''(a: Int, b: Int) -> Bool'' exampleFunc [''Int'', ''String''] []
       = Inl (TypeError msg))"
proof -
  have n: "noInheritedName exampleFunc"
    by (simp add: noInheritedName_def exampleFunc_def ArgType_name_def Object_prototype_keys_def)
  have a: "\<not> callRejected (=) exampleFunc [] [(''b'', ''Int''), (''a'', ''Int'')]"
    by (simp add: callRejected_def exampleFunc_def tooFewPositional_def tooManyPositional_def
        badPositional_def badNamed_def unknownName_def alreadyCovered_def declaredIndex_def
        coveredByName_def isNamed_def ArgType_name_def nNonOptArgs_def isOptional_def)
  have b: "callRejected (=) exampleFunc [''Int'', ''String''] []"
    by (simp add: callRejected_def exampleFunc_def badPositional_def)
  from n a b
    checkCall_rejects_or_returns [of exampleFunc "(=)" "[]" "[(''b'', ''Int''), (''a'', ''Int'')]"
      id id "''(a: Int, b: Int) -> Bool''"]
    checkCall_rejects_or_returns [of exampleFunc "(=)" "[''Int'', ''String'']" "[]"
      id id "''(a: Int, b: Int) -> Bool''"]
  show ?thesis by (simp add: exampleFunc_def)
qed

text \<open>
  The claim as stated fails for \<^verbatim>\<open>f(1, b: 2)\<close>: one positional argument is supplied, the one
  non-optional argument that no name covers is \<^verbatim>\<open>a\<close>, none of the claimed conditions holds,
  and the call is rejected.
\<close>

theorem checkCall_mixed_counterexample:
  "\<not> callRejected_claimed (=) exampleFunc [''Int''] [(''b'', ''Int'')]
   \<and> checkCall (=) id id ''(a: Int, b: Int) -> Bool'' exampleFunc [''Int''] [(''b'', ''Int'')]
       = Inl (TypeError ''named arg a missing from call'')"
  by (simp add: callRejected_claimed_def exampleFunc_def tooFewPositional_claimed_def
      tooManyPositional_def badPositional_def badNamed_def unknownName_def alreadyCovered_def
      declaredIndex_def coveredByName_def isNamed_def ArgType_name_def nNonOptArgs_def
      isOptional_def checkCall_def hasProperty_def Object_prototype_keys_def)

text \<open>
  Outside the function types of the theorem the first loop lets a missing argument pass:
  for \<^verbatim>\<open>f: (constructor: Int) -> Bool\<close> the call \<^verbatim>\<open>f()\<close> supplies no argument at all, and
  \<^verbatim>\<open>"constructor" in {}\<close> holds, so that the return types are returned.
\<close>

lemma checkCall_inherited_name:
  "tooFewPositional exampleInherited [] ([] :: (string \<times> string) list)
   \<and> checkCall (=) id id ''(constructor: Int) -> Bool'' exampleInherited [] [] = Inr [''Bool'']"
  by (simp add: exampleInherited_def tooFewPositional_def coveredByName_def isNamed_def
      ArgType_name_def nNonOptArgs_def isOptional_def checkCall_def hasProperty_def
      Object_prototype_keys_def)

section \<open>Generic inference: theorems\<close>

lemma infer_map_le: "infer T m type = Inr (T', m') \<Longrightarrow> m \<subseteq>\<^sub>m m'"
proof (induction T arbitrary: m type T' m')
  case (ParamTypeRef n)
  then show ?case by (auto simp: map_le_def split: option.splits)
next
  case (ListType T)
  then show ?case by (auto split: option.splits ty.splits sum.splits)
next
  case (MapType K V)
  then show ?case
    by (auto split: option.splits ty.splits sum.splits) (blast intro: map_le_trans)+
next
  case (OptionType T)
  then show ?case by (auto split: option.splits ty.splits sum.splits)
next
  case (OptionSomeType T)
  then show ?case by (auto split: option.splits ty.splits sum.splits)
next
  case (OptionNoneType T)
  then show ?case by (auto split: option.splits ty.splits sum.splits)
qed auto

lemma inferEach_map_le: "inferEach ats m ts = Inr (ats', m') \<Longrightarrow> m \<subseteq>\<^sub>m m'"
proof (induction ats arbitrary: m ts ats' m')
  case Nil
  then show ?case by simp
next
  case (Cons at ats)
  then show ?case
    by (auto split: sum.splits dest!: infer_map_le) (blast intro: map_le_trans)+
qed

lemma inferRets_map_le: "inferRets rts m = Inr (rts', m') \<Longrightarrow> m \<subseteq>\<^sub>m m'"
proof (induction rts arbitrary: m rts' m')
  case Nil
  then show ?case by simp
next
  case (Cons rt rts)
  then show ?case
    by (auto split: sum.splits dest!: infer_map_le) (blast intro: map_le_trans)+
qed

text \<open>
  Claim C3, as the code has it. In an inference pass the first concrete type matched
  against a free type parameter is stored as its binding. On every later occurrence of the
  parameter the stored binding is returned unchanged, whatever type the occurrence is
  matched against and also when it is matched against none: the pass compares nothing and
  does not fail there. No step of a pass, through the containers and through the arguments
  and return types of a function type, removes or overwrites a binding.
\<close>

theorem infer_first_binding_kept:
  "(m n = None \<longrightarrow> infer (ParamTypeRef n) m (Some t) = Inr (t, m(n \<mapsto> t)))
   \<and> (m n = Some prev \<longrightarrow> infer (ParamTypeRef n) m type = Inr (prev, m))
   \<and> (infer T m type = Inr (T', m') \<longrightarrow> m \<subseteq>\<^sub>m m')
   \<and> (inferArgs f m ts = Inr (f', m') \<longrightarrow> m \<subseteq>\<^sub>m m')"
proof (intro conjI impI)
  assume "inferArgs f m ts = Inr (f', m')"
  then show "m \<subseteq>\<^sub>m m'"
    by (auto simp: inferArgs_def split: if_splits sum.splits
        dest!: inferEach_map_le inferRets_map_le) (blast intro: map_le_trans)+
qed (auto dest: infer_map_le)

text \<open>The theorem at the parameter \<^verbatim>\<open>a\<close>, first unbound and then bound to \<^verbatim>\<open>Int\<close>.\<close>

theorem infer_first_binding_kept_witness:
  "infer (ParamTypeRef ''a'') Map.empty (Some (Builtin IntType))
     = Inr (Builtin IntType, [''a'' \<mapsto> Builtin IntType])
   \<and> infer (ParamTypeRef ''a'') [''a'' \<mapsto> Builtin IntType] (Some (Builtin IntType))
     = Inr (Builtin IntType, [''a'' \<mapsto> Builtin IntType])
   \<and> infer (ListType (ParamTypeRef ''a'')) [''a'' \<mapsto> Builtin IntType]
        (Some (ListType (Builtin IntType)))
     = Inr (ListType (Builtin IntType), [''a'' \<mapsto> Builtin IntType])
   \<and> [''a'' \<mapsto> Builtin IntType] \<subseteq>\<^sub>m [''a'' \<mapsto> Builtin IntType]"
  using infer_first_binding_kept [of Map.empty "''a''" "Builtin IntType" "Builtin IntType"
      "Some (Builtin IntType)" "ListType (ParamTypeRef ''a'')" "ListType (Builtin IntType)"
      "[''a'' \<mapsto> Builtin IntType]" exampleGeneric "[]"]
    infer_first_binding_kept [of "[''a'' \<mapsto> Builtin IntType]" "''a''" "Builtin IntType"
      "Builtin IntType" "Some (Builtin IntType)" "ListType (ParamTypeRef ''a'')"
      "ListType (Builtin IntType)" "[''a'' \<mapsto> Builtin IntType]" exampleGeneric "[]"]
  by simp

text \<open>
  The claim as stated fails: \<^verbatim>\<open>Int\<close> and \<^verbatim>\<open>String\<close> are not the same type, yet a parameter
  bound to \<^verbatim>\<open>Int\<close> and matched against \<^verbatim>\<open>String\<close> infers \<^verbatim>\<open>Int\<close>, and the pass over
  \<^verbatim>\<open>(x: a, y: []a) -> a\<close> with the argument types \<^verbatim>\<open>Int\<close> and \<^verbatim>\<open>[]String\<close> succeeds.
\<close>

theorem infer_mismatch_counterexample:
  "same (Builtin IntType) (Builtin StringType) = Inr False
   \<and> infer (ParamTypeRef ''a'') [''a'' \<mapsto> Builtin IntType] (Some (Builtin StringType))
     = Inr (Builtin IntType, [''a'' \<mapsto> Builtin IntType])
   \<and> inferArgs exampleGeneric Map.empty [Builtin IntType, ListType (Builtin StringType)]
     = Inr (\<lparr>argTypes = [\<lparr>argName = Some ''x'', argType = Builtin IntType, argOptional = False\<rparr>,
                          \<lparr>argName = Some ''y'', argType = ListType (Builtin IntType),
                           argOptional = False\<rparr>],
              retTypes = [Builtin IntType]\<rparr>,
            [''a'' \<mapsto> Builtin IntType])"
  by (simp add: same_def and_also_def exampleGeneric_def inferArgs_def)

section \<open>Program construction: theorems\<close>

lemma parseImports_loop_Inl:
  "\<not> (distinct (map name ms) \<and> set (map name ms) \<inter> S = {}) \<Longrightarrow>
     \<exists>n\<in>set (map name ms). parseImports_loop S ms = Inl (SyntaxError (''non-unique module name '' @ quoted n))"
proof (induction ms arbitrary: S)
  case Nil
  then show ?case by simp
next
  case (Cons m ms)
  show ?case
  proof (cases "name m \<in> S")
    case True
    then show ?thesis by simp
  next
    case False
    with Cons.prems have "\<not> (distinct (map name ms) \<and> set (map name ms) \<inter> insert (name m) S = {})"
      by auto
    from Cons.IH [OF this] False show ?thesis by auto
  qed
qed

text \<open>
  Claim C10. When two auxiliary modules have the same name, or an auxiliary module has the
  name of the main module, \<^verbatim>\<open>Program.new\<close> fails with the syntax error
  \<^verbatim>\<open>non-unique module name\<close>, naming a module of the auxiliary sources, whatever the
  dependency resolution and the type checking of these modules would have given.
\<close>

theorem non_unique_module_name:
  assumes "\<not> distinct (name main # map name moduleSrcs)"
  shows "\<exists>n\<in>set (map name moduleSrcs).
           Program_new evalTypes purp main post moduleSrcs
             = Inl (SyntaxError (''non-unique module name '' @ quoted n))"
proof -
  from assms have "\<not> (distinct (map name moduleSrcs) \<and> set (map name moduleSrcs) \<inter> {name main} = {})"
    by auto
  from parseImports_loop_Inl [OF this] show ?thesis
    by (auto simp: Program_new_def parseImports_def)
qed

text \<open>
  The theorem at two auxiliary modules named \<^verbatim>\<open>A\<close>, the first of which imports itself: the
  error is the duplicate name, not the self-import.
\<close>

theorem non_unique_module_name_witness:
  "\<not> distinct [''main'', ''A'', ''A'']
   \<and> Program_new (\<lambda>p. Inr ()) Spending
        \<lparr>name = ''main'', statements = [ImportModuleStatement ''A'', FuncStatement ''main''],
         isMainModule = True\<rparr>
        None
        [\<lparr>name = ''A'', statements = [ImportModuleStatement ''A''], isMainModule = False\<rparr>,
         \<lparr>name = ''A'', statements = [], isMainModule = False\<rparr>]
      = Inl (SyntaxError (''non-unique module name '' @ quoted ''A''))"
  using non_unique_module_name [of
      "\<lparr>name = ''main'', statements = [ImportModuleStatement ''A'', FuncStatement ''main''],
         isMainModule = True\<rparr>"
      "[\<lparr>name = ''A'', statements = [ImportModuleStatement ''A''], isMainModule = False\<rparr>,
         \<lparr>name = ''A'', statements = [], isMainModule = False\<rparr>]"
      "\<lambda>p. Inr ()" Spending None]
  by simp

section \<open>The parameter interface: theorems\<close>

lemma evalParam_scan_none:
  "\<not> list_ex (\<lambda>(s, isImport). isConstStatement s \<and> statement_name s = n \<and> \<not> isImport) ss
     \<Longrightarrow> evalParam_scan n ss = (ss, None)"
proof (induction ss)
  case Nil
  then show ?case by simp
next
  case (Cons x ss)
  obtain s i where x: "x = (s, i)" by (cases x)
  from Cons.prems x have here: "\<not> (isConstStatement s \<and> statement_name s = n \<and> \<not> i)"
    and rest: "\<not> list_ex (\<lambda>(s, isImport). isConstStatement s \<and> statement_name s = n \<and> \<not> isImport) ss"
    by auto
  from Cons.IH [OF rest] here x show ?case by simp
qed

text \<open>
  Claim C8, as the code has it. For a name that is not the name of a const statement of the
  main or post module, \<^verbatim>\<open>evalParam\<close> fails, once the definitions are fetched, with the plain
  error \<^verbatim>\<open>param '...' not found\<close>, and reading the name through the proxy of
  \<^verbatim>\<open>parameters\<close> fails with the plain error \<^verbatim>\<open>invalid param name '...'\<close>. Both name the
  parameter; neither is a reference error.
\<close>

theorem undeclared_param_fails:
  "(\<not> list_ex (\<lambda>(s, isImport). isConstStatement s \<and> statement_name s = n \<and> \<not> isImport)
        (allStatements p) \<longrightarrow>
      evalParam fetchDefinitions evalIR p n =
        (case fetchDefinitions (allStatements p) of
           Inl e \<Rightarrow> Inl e
         | Inr defs \<Rightarrow> Inl (PlainError (''param '' @ quoted n @ '' not found''))))
   \<and> (paramTypes p = Inr types \<and> n \<notin> set types \<and> cache n = None \<longrightarrow>
      parameters_get fetchDefinitions evalIR p cache n
        = Inl (PlainError (''invalid param name '' @ quoted n)))"
  by (auto simp: evalParam_def evalParam_scan_none parameters_get_def split: sum.splits)

text \<open>
  The theorem at a program with the one constant \<^verbatim>\<open>A\<close> and the name \<^verbatim>\<open>B\<close>; for the same
  name \<^verbatim>\<open>changeParamSafe\<close> does raise a reference error.
\<close>

theorem undeclared_param_fails_witness:
  "evalParam (\<lambda>visited. Inr ()) (\<lambda>defs s. Inr s) exampleProgram ''B''
      = Inl (PlainError (''param '' @ quoted ''B'' @ '' not found''))
   \<and> parameters_get (\<lambda>visited. Inr ()) (\<lambda>defs s. Inr s) exampleProgram Map.empty ''B''
      = Inl (PlainError (''invalid param name '' @ quoted ''B''))
   \<and> changeParamSafe exampleProgram ''B'' = Inl (ReferenceError (''param '' @ quoted ''B'' @ '' not found''))"
  using undeclared_param_fails [of "''B''" exampleProgram "\<lambda>visited. Inr ()" "\<lambda>defs s. Inr s"
      "[''A'']" Map.empty]
  by (simp add: exampleProgram_def allStatements_def paramTypes_def mainAndPostStatements_def
      mainModule_def postModule_def changeParamSafe_def)

section \<open>Mutual recursion injection: theorems\<close>

subsection \<open>Maps as lists of entries\<close>

lemma map_get_defined_append:
  "a \<notin> fst ` set xs \<Longrightarrow> map_get_defined (xs @ (a, b) # ys) a = Inr b"
  by (induction xs) (auto simp: map_get_defined_def)

lemma map_set_append:
  "a \<notin> fst ` set xs \<Longrightarrow> map_set a v (xs @ (a, b) # ys) = xs @ (a, v) # ys"
  by (induction xs) auto

lemma replaceInAll_append:
  "distinct (map fst (xs @ ys)) \<Longrightarrow>
     replaceInAll k new (map fst ys) (xs @ ys)
       = Inr (xs @ map (\<lambda>e. (fst e, IR_replace k new (snd e))) ys)"
proof (induction ys arbitrary: xs)
  case Nil
  then show ?case by simp
next
  case (Cons y ys)
  obtain a b where y: "y = (a, b)" by (cases y)
  from Cons.prems y have fresh: "a \<notin> fst ` set xs" by auto
  from Cons.prems y have d: "distinct (map fst ((xs @ [(a, IR_replace k new b)]) @ ys))" by auto
  from Cons.IH [OF d] fresh y show ?case
    by (simp add: map_get_defined_append map_set_append)
qed

lemma replaceInAll_all:
  "distinct (map fst m) \<Longrightarrow>
     replaceInAll k new (map fst m) m = Inr (map (\<lambda>e. (fst e, IR_replace k new (snd e))) m)"
  using replaceInAll_append [of "[]" m k new] by simp

lemma map_get_defined_map:
  "distinct (map fst m) \<Longrightarrow> (a, b) \<in> set m \<Longrightarrow>
     map_get_defined (map (\<lambda>e. (fst e, f (snd e))) m) a = Inr (f b)"
proof (induction m)
  case Nil
  then show ?case by simp
next
  case (Cons e m)
  show ?case
  proof (cases "fst e = a")
    case True
    with Cons.prems have "e = (a, b)" by (cases e) (auto simp: image_iff)
    then show ?thesis by (simp add: map_get_defined_def)
  next
    case False
    with Cons.prems have "(a, b) \<in> set m" "distinct (map fst m)" by auto
    from Cons.IH [OF this(2) this(1)] False show ?thesis
      by (simp add: map_get_defined_def)
  qed
qed

lemma map_set_map:
  "distinct (map fst m) \<Longrightarrow> a \<in> fst ` set m \<Longrightarrow>
     map_set a v m = map (\<lambda>e. if fst e = a then (a, v) else e) m"
proof (induction m)
  case Nil
  then show ?case by simp
next
  case (Cons e m)
  show ?case
  proof (cases "fst e = a")
    case True
    with Cons.prems have "a \<notin> fst ` set m" by auto
    then have "map (\<lambda>e. if fst e = a then (a, v) else e) m = m"
      by (induction m) auto
    with True show ?thesis by (cases e) simp
  next
    case False
    with Cons show ?thesis by (cases e) auto
  qed
qed

subsection \<open>Replacement on the lexical items\<close>

lemma IR_replace_append [simp]:
  "IR_replace k new (xs @ ys) = IR_replace k new xs @ IR_replace k new ys"
  by (simp add: IR_replace_def)

lemma IR_replace_absent: "Word k \<notin> set ir \<Longrightarrow> IR_replace k new ir = ir"
  by (induction ir) (auto simp: IR_replace_def)

lemma set_intersperse: "set (intersperse s xs) \<subseteq> insert s (set xs)"
  by (induction s xs rule: intersperse.induct) auto

lemma Word_in_joinWords: "Word k \<in> set (joinWords others) \<Longrightarrow> k \<in> set others"
  using set_intersperse [of "Other '', ''" "map Word others"] by (auto simp: joinWords_def)

lemma IR_replace_application:
  "k \<noteq> w \<Longrightarrow> k \<notin> set others \<Longrightarrow> IR_replace k new (application w others) = application w others"
  by (rule IR_replace_absent) (auto simp: application_def dest: Word_in_joinWords)

lemma IR_replace_wrapped:
  "k \<notin> set others \<Longrightarrow> IR_replace k new (wrapped others ir) = wrapped others (IR_replace k new ir)"
proof -
  assume "k \<notin> set others"
  then have "IR_replace k new (joinWords others) = joinWords others"
    by (intro IR_replace_absent) (auto dest: Word_in_joinWords)
  then show ?thesis by (simp add: wrapped_def) (simp add: IR_replace_def)
qed

subsection \<open>Positions of keys\<close>

lemma keyIndex_nth: "distinct ks \<Longrightarrow> i < length ks \<Longrightarrow> keyIndex (ks ! i) ks = Some i"
proof (induction ks arbitrary: i)
  case Nil
  then show ?case by simp
next
  case (Cons k ks)
  then show ?case by (cases i) auto
qed

lemma keyIndex_Some: "keyIndex w ks = Some i \<Longrightarrow> i < length ks \<and> ks ! i = w"
  by (induction ks arbitrary: i) (auto split: if_splits option.splits)

lemma keyIndex_None: "keyIndex w ks = None \<Longrightarrow> w \<notin> set ks"
  by (induction ks) (auto split: if_splits option.splits)

lemma nth_notin_drop:
  assumes "distinct ks" "j < i" "j < length ks"
  shows "ks ! j \<notin> set (drop i ks)"
proof
  assume "ks ! j \<in> set (drop i ks)"
  then obtain n where n: "n < length (drop i ks)" "drop i ks ! n = ks ! j"
    by (auto simp: in_set_conv_nth)
  then have "i + n < length ks" "ks ! (i + n) = ks ! j" by auto
  with assms have "i + n = j" by (simp add: nth_eq_iff_index_eq)
  with assms show False by simp
qed


subsection \<open>One iteration\<close>

lemma rewriteFrom_Cons:
  "rewriteFrom ks j (t # ir) = rewriteFrom ks j [t] @ rewriteFrom ks j ir"
  by (simp add: rewriteFrom_def)

lemma IR_replace_Cons:
  "IR_replace k new (t # ir) = IR_replace k new [t] @ IR_replace k new ir"
  by (simp add: IR_replace_def)

lemma rewrite_token_step:
  assumes d: "distinct ks" and j: "j < length ks"
  shows "IR_replace (ks ! j) (application (ks ! j) (drop j ks)) (rewriteFrom ks (Suc j) [t])
           = rewriteFrom ks j [t]"
proof (cases t)
  case (Other s)
  then show ?thesis by (simp add: rewriteFrom_def IR_replace_def)
next
  case (Word w)
  show ?thesis
  proof (cases "keyIndex w ks")
    case None
    then have "w \<notin> set ks" by (rule keyIndex_None)
    with j have "w \<noteq> ks ! j" using nth_mem [of j ks] by auto
    with None Word show ?thesis by (simp add: rewriteFrom_def IR_replace_def)
  next
    case (Some i)
    then have i: "i < length ks" "ks ! i = w" using keyIndex_Some by blast+
    consider "i < j" | "i = j" | "j < i" by linarith
    then show ?thesis
    proof cases
      case 1
      with d i j have "w \<noteq> ks ! j" by (auto simp: nth_eq_iff_index_eq)
      with 1 Some Word show ?thesis by (simp add: rewriteFrom_def IR_replace_def)
    next
      case 2
      with Some Word i show ?thesis by (simp add: rewriteFrom_def IR_replace_def)
    next
      case 3
      with d i j have ne: "ks ! j \<noteq> w" by (auto simp: nth_eq_iff_index_eq)
      from d 3 j have "ks ! j \<notin> set (drop i ks)" by (rule nth_notin_drop)
      with ne have "IR_replace (ks ! j) (application (ks ! j) (drop j ks)) (application w (drop i ks))
          = application w (drop i ks)"
        by (rule IR_replace_application)
      with 3 Some Word show ?thesis by (simp add: rewriteFrom_def)
    qed
  qed
qed

lemma rewrite_step:
  assumes "distinct ks" and "j < length ks"
  shows "IR_replace (ks ! j) (application (ks ! j) (drop j ks)) (rewriteFrom ks (Suc j) ir)
           = rewriteFrom ks j ir"
proof (induction ir)
  case Nil
  show ?case by (simp add: rewriteFrom_def IR_replace_def)
next
  case (Cons t ir)
  have "IR_replace (ks ! j) (application (ks ! j) (drop j ks)) (rewriteFrom ks (Suc j) (t # ir))
      = IR_replace (ks ! j) (application (ks ! j) (drop j ks)) (rewriteFrom ks (Suc j) [t])
        @ IR_replace (ks ! j) (application (ks ! j) (drop j ks)) (rewriteFrom ks (Suc j) ir)"
    by (subst rewriteFrom_Cons) simp
  also have "\<dots> = rewriteFrom ks j [t] @ rewriteFrom ks j ir"
    using rewrite_token_step [OF assms] Cons.IH by simp
  also have "\<dots> = rewriteFrom ks j (t # ir)"
    by (rule rewriteFrom_Cons [symmetric])
  finally show ?case .
qed

lemma entry_step:
  assumes d: "distinct ks" and j: "j < length ks"
  shows "(if fst e = ks ! j
          then (ks ! j, wrapped (drop j ks) (rewriteFrom ks j (snd e)))
          else (fst e, IR_replace (ks ! j) (application (ks ! j) (drop j ks))
                         (snd (injectedFrom_entry ks (Suc j) e))))
         = injectedFrom_entry ks j e"
proof (cases "fst e = ks ! j")
  case True
  with d j have "keyIndex (fst e) ks = Some j" by (simp add: keyIndex_nth)
  with True show ?thesis by (simp add: injectedFrom_entry_def)
next
  case False
  note R = rewrite_step [OF d j]
  show ?thesis
  proof (cases "keyIndex (fst e) ks")
    case None
    with False show ?thesis by (simp add: injectedFrom_entry_def R)
  next
    case (Some i)
    then have i: "i < length ks" "ks ! i = fst e" using keyIndex_Some by blast+
    with False have ne: "i \<noteq> j" by auto
    show ?thesis
    proof (cases "j < i")
      case True
      from d True j have "ks ! j \<notin> set (drop i ks)" by (rule nth_notin_drop)
      with True Some False show ?thesis
        by (simp add: injectedFrom_entry_def IR_replace_wrapped R)
    next
      case False2: False
      with ne have "i < j" by simp
      with Some False show ?thesis by (simp add: injectedFrom_entry_def R)
    qed
  qed
qed

lemma fst_injectedFrom_entry [simp]: "fst (injectedFrom_entry ks j e) = fst e"
  by (simp add: injectedFrom_entry_def)

lemma rewriteFrom_length: "rewriteFrom ks (length ks) ir = ir"
proof (induction ir)
  case Nil
  show ?case by (simp add: rewriteFrom_def)
next
  case (Cons t ir)
  have "rewriteFrom ks (length ks) [t] = [t]"
  proof (cases t)
    case (Word w)
    then show ?thesis
      by (cases "keyIndex w ks") (auto simp: rewriteFrom_def dest: keyIndex_Some)
  next
    case (Other s)
    then show ?thesis by (simp add: rewriteFrom_def)
  qed
  with Cons show ?case by (subst rewriteFrom_Cons) simp
qed

lemma injectedFrom_entry_length: "injectedFrom_entry ks (length ks) e = e"
  by (cases "keyIndex (fst e) ks")
     (auto simp: injectedFrom_entry_def rewriteFrom_length dest: keyIndex_Some)

lemma fst_comp_injectedFrom_entry [simp]: "fst \<circ> injectedFrom_entry ks j = fst"
  by (rule ext) simp

lemma map_injectedFrom_entry_length [simp]: "map (injectedFrom_entry ks (length ks)) m = m"
  by (induction m) (simp_all add: injectedFrom_entry_length)

lemma loop_step:
  assumes d: "distinct (map fst m)" and j: "j < length m"
  shows "injectMutualRecursions_loop (map fst m) (Suc j) (map (injectedFrom_entry (map fst m) (Suc j)) m)
       = injectMutualRecursions_loop (map fst m) j (map (injectedFrom_entry (map fst m) j) m)"
proof -
  let ?ks = "map fst m"
  let ?k = "?ks ! j"
  let ?new = "application ?k (drop j ?ks)"
  let ?st = "map (injectedFrom_entry ?ks (Suc j)) m"
  let ?m' = "map (\<lambda>e. (fst e, IR_replace ?k ?new (snd e))) ?st"
  have ks: "map fst ?st = ?ks" by (simp add: comp_def)
  have jl: "j < length ?ks" using j by simp
  have dst: "distinct (map fst ?st)" using d ks by simp
  have r: "replaceInAll ?k ?new ?ks ?st = Inr ?m'"
    using replaceInAll_all [OF dst, of ?k ?new] ks by simp
  have mem: "(?k, snd (injectedFrom_entry ?ks (Suc j) (m ! j))) \<in> set ?st"
  proof -
    have "injectedFrom_entry ?ks (Suc j) (m ! j) \<in> set ?st" using j by simp
    moreover have "fst (injectedFrom_entry ?ks (Suc j) (m ! j)) = ?k" using j by simp
    ultimately show ?thesis by (metis prod.collapse)
  qed
  have key_j: "keyIndex ?k ?ks = Some j" using d jl by (rule keyIndex_nth)
  have body: "snd (injectedFrom_entry ?ks (Suc j) (m ! j)) = rewriteFrom ?ks (Suc j) (snd (m ! j))"
    using key_j j by (simp add: injectedFrom_entry_def)
  have g: "map_get_defined ?m' ?k
      = Inr (IR_replace ?k ?new (rewriteFrom ?ks (Suc j) (snd (m ! j))))"
    using map_get_defined_map [OF dst mem, of "IR_replace ?k ?new"] body by simp
  have g': "map_get_defined ?m' ?k = Inr (rewriteFrom ?ks j (snd (m ! j)))"
    using g rewrite_step [OF d jl] by simp
  have dm': "distinct (map fst ?m')" using d ks by (simp add: comp_def)
  have inm': "?k \<in> fst ` set ?m'" using j by (force simp: image_iff comp_def)
  have set_eq: "map_set ?k (wrapped (drop j ?ks) (rewriteFrom ?ks j (snd (m ! j)))) ?m'
      = map (injectedFrom_entry ?ks j) m"
  proof -
    have "map_set ?k (wrapped (drop j ?ks) (rewriteFrom ?ks j (snd (m ! j)))) ?m'
        = map (\<lambda>e. if fst e = ?k
                     then (?k, wrapped (drop j ?ks) (rewriteFrom ?ks j (snd (m ! j)))) else e) ?m'"
      using map_set_map [OF dm' inm'] by simp
    also have "\<dots> = map (injectedFrom_entry ?ks j) m"
      unfolding map_map
    proof (rule map_cong [OF refl])
      fix e
      assume "e \<in> set m"
      then obtain n where n: "n < length m" "m ! n = e" by (auto simp: in_set_conv_nth)
      have same: "fst e = ?k \<Longrightarrow> e = m ! j"
      proof -
        assume "fst e = ?k"
        with n j have "?ks ! n = ?ks ! j" by simp
        moreover have "n < length ?ks" "j < length ?ks" using n j by simp_all
        ultimately have "n = j" using d nth_eq_iff_index_eq [of ?ks n j] by blast
        with n show "e = m ! j" by simp
      qed
      show "((\<lambda>e. if fst e = ?k
                  then (?k, wrapped (drop j ?ks) (rewriteFrom ?ks j (snd (m ! j)))) else e)
             \<circ> ((\<lambda>e. (fst e, IR_replace ?k ?new (snd e)))
                \<circ> injectedFrom_entry ?ks (Suc j))) e
          = injectedFrom_entry ?ks j e"
        using entry_step [OF d jl, of e] same by (auto simp: comp_def)
    qed
    finally show ?thesis .
  qed
  show ?thesis
    using r g' set_eq by (simp add: Let_def)
qed

lemma loop_all:
  assumes d: "distinct (map fst m)"
  shows "j \<le> length m \<Longrightarrow>
     injectMutualRecursions_loop (map fst m) j (map (injectedFrom_entry (map fst m) j) m)
       = Inr (map (injectedFrom_entry (map fst m) 0) m)"
proof (induction j)
  case 0
  show ?case by simp
next
  case (Suc j)
  then have "j < length m" "j \<le> length m" by simp_all
  from loop_step [OF d this(1)] Suc.IH [OF this(2)] show ?case by simp
qed

subsection \<open>The first and the last state\<close>

lemma rewriteFrom_0: "rewriteFrom ks 0 ir = rewriteOccurrences ks ir"
proof -
  have "(\<lambda>t. case t of
            Word w \<Rightarrow> (case keyIndex w ks of None \<Rightarrow> [t]
                       | Some i \<Rightarrow> if 0 \<le> i then application w (drop i ks) else [t])
          | Other s \<Rightarrow> [t])
      = (\<lambda>t. case t of
            Word w \<Rightarrow> (case keyIndex w ks of None \<Rightarrow> [t]
                       | Some i \<Rightarrow> application w (drop i ks))
          | Other s \<Rightarrow> [t])"
    by (auto split: tok.splits option.splits)
  then show ?thesis by (simp add: rewriteFrom_def rewriteOccurrences_def)
qed

lemma injected_from_eq:
  "distinct ks \<Longrightarrow> ks = pre @ map fst m \<Longrightarrow>
     injected_from ks (length pre) m = map (injectedFrom_entry ks 0) m"
proof (induction m arbitrary: pre)
  case Nil
  show ?case by simp
next
  case (Cons e m)
  obtain k ir where e: "e = (k, ir)" by (cases e)
  from Cons.prems e have ks: "ks = (pre @ [k]) @ map fst m" by simp
  from Cons.prems e have "keyIndex (ks ! length pre) ks = Some (length pre)"
    by (intro keyIndex_nth) auto
  moreover from Cons.prems e have "ks ! length pre = k" by simp
  ultimately have idx: "keyIndex k ks = Some (length pre)" by simp
  from Cons.IH [OF Cons.prems(1) ks] have "injected_from ks (Suc (length pre)) m
      = map (injectedFrom_entry ks 0) m" by simp
  with idx e show ?case by (simp add: injectedFrom_entry_def rewriteFrom_0)
qed

text \<open>
  Claim C4. On a definition map (its keys are distinct, being the keys of a map),
  \<^verbatim>\<open>injectMutualRecursions\<close> does not fail, and in its result, for each position \<open>i\<close>, every
  occurrence of the key \<open>k\<^sub>i\<close> in every definition is the application of \<open>k\<^sub>i\<close> to the keys
  \<open>k\<^sub>i, \<dots>, k\<^sub>n\<^sub>-\<^sub>1\<close>, and the definition of \<open>k\<^sub>i\<close> is wrapped as a function of exactly these keys.
\<close>

theorem injectMutualRecursions_injected:
  assumes "distinct (map fst m)"
  shows "injectMutualRecursions m = Inr (injected m)"
proof -
  have "injectMutualRecursions m
      = injectMutualRecursions_loop (map fst m) (length m)
          (map (injectedFrom_entry (map fst m) (length (map fst m))) m)"
    using map_injectedFrom_entry_length [of "map fst m" m]
    by (simp add: injectMutualRecursions_def)
  also have "\<dots> = Inr (map (injectedFrom_entry (map fst m) 0) m)"
    using loop_all [OF assms, of "length m"] by simp
  also have "map (injectedFrom_entry (map fst m) 0) m = injected m"
    using injected_from_eq [OF assms, of "[]" m] by (simp add: injected_def)
  finally show ?thesis .
qed

text \<open>
  The theorem at the two definitions \<^verbatim>\<open>f = g()\<close> and \<^verbatim>\<open>g = f + h\<close>, which refer to each
  other.
\<close>

theorem injectMutualRecursions_injected_witness:
  "distinct (map fst exampleDefinitions)
   \<and> injectMutualRecursions exampleDefinitions =
       Inr [(''f'', [Other ''('', Word ''f'', Other '', '', Word ''g'', Other '') -> {'',
                    Word ''g'', Other ''('', Word ''g'', Other '')'', Other ''()'',
                    Other ''}'']),
            (''g'', [Other ''('', Word ''g'', Other '') -> {'',
                    Word ''f'', Other ''('', Word ''f'', Other '', '', Word ''g'', Other '')'',
                    Other '' + '', Word ''h'',
                    Other ''}''])]"
  using injectMutualRecursions_injected [of exampleDefinitions]
  by (simp add: exampleDefinitions_def injected_def rewriteOccurrences_def application_def
      wrapped_def joinWords_def)

section \<open>Dependency resolution: theorems\<close>

subsection \<open>The loop over a concatenation\<close>

lemma loop_append:
  "filterDependencies_loop ms this stack (xs @ ys) deps =
     (case filterDependencies_loop ms this stack xs deps of
        Inl e \<Rightarrow> Inl e
      | Inr d \<Rightarrow> filterDependencies_loop ms this stack ys d)"
proof (induction xs arbitrary: deps)
  case Nil
  show ?case by simp
next
  case (Cons s xs)
  show ?case
    by (simp add: Cons.IH split: option.splits sum.splits)
qed

lemma self_import:
  assumes "statements this = xs @ s # ys" and "moduleName s = Some (name this)"
  shows "filterDependencies ms this stack =
     (case filterDependencies_loop ms this stack xs [] of
        Inl e \<Rightarrow> Inl e
      | Inr d \<Rightarrow> Inl (SyntaxError ''can't import self''))"
  using assms by (simp add: loop_append split: sum.splits)

lemma loop_no_imports:
  "list_all (\<lambda>x. moduleName x = None) xs \<Longrightarrow>
   filterDependencies_loop ms this stack xs deps = Inr deps"
  by (induction xs) auto

lemma first_self_import:
  assumes "statements this = xs @ s # ys" and "moduleName s = Some (name this)"
    and "list_all (\<lambda>x. moduleName x = None) xs"
  shows "filterDependencies ms this stack = Inl (SyntaxError ''can't import self'')"
  using assms by (simp add: loop_append loop_no_imports)

subsection \<open>The modules being resolved need not be candidates\<close>

lemma find_append_fresh: "\<forall>r \<in> set rs. \<not> P r \<Longrightarrow> find P (ms @ rs) = find P ms"
  by (induction ms) (auto simp: find_None_iff)

lemma filterDependencies_known:
  shows "name ` set rs \<subseteq> name ` set (this # stack) \<Longrightarrow>
           filterDependencies (ms @ rs) this stack = filterDependencies ms this stack"
    and "name ` set rs \<subseteq> name ` set (this # stack) \<Longrightarrow>
           filterDependencies_loop (ms @ rs) this stack ss deps
             = filterDependencies_loop ms this stack ss deps"
proof (induction ms this stack and ms this stack ss deps
    rule: filterDependencies_filterDependencies_loop.induct)
  case (1 ms this stack)
  from "1.IH" [OF "1.prems"] show ?case by simp
next
  case (2 ms this stack deps)
  show ?case by simp
next
  case (3 ms this stack s ss deps)
  show ?case
  proof (cases "moduleName s")
    case None
    with "3.IH"(1) [OF None "3.prems"] show ?thesis by simp
  next
    case (Some mn)
    show ?thesis
    proof (cases "mn = name this \<or> list_ex (\<lambda>d. name d = mn) stack")
      case True
      with Some show ?thesis by auto
    next
      case False
      then have ne: "mn \<noteq> name this" and ns: "\<not> list_ex (\<lambda>d. name d = mn) stack" by simp_all
      show ?thesis
      proof (cases "list_ex (\<lambda>d. name d = mn) deps")
        case True
        with "3.IH"(2) [OF Some ne ns True "3.prems"] Some ne ns show ?thesis by simp
      next
        case nd: False
        from ne ns have "mn \<notin> name ` set (this # stack)" by (auto simp: list_ex_iff)
        with "3.prems" have "\<forall>r \<in> set rs. \<not> name r = mn" by auto
        then have fa: "find (\<lambda>m. name m = mn) (ms @ rs) = find (\<lambda>m. name m = mn) ms"
          by (rule find_append_fresh)
        show ?thesis
        proof (cases "find (\<lambda>m. name m = mn) ms")
          case None
          with fa Some ne ns nd show ?thesis by simp
        next
          case f: (Some m)
          from "3.prems" have sub: "name ` set rs \<subseteq> name ` set (m # this # stack)" by auto
          note rec = "3.IH"(3) [OF Some ne ns nd f sub]
          show ?thesis
          proof (cases "filterDependencies ms m (this # stack)")
            case (Inl e)
            with rec fa Some ne ns nd f show ?thesis by simp
          next
            case (Inr ds)
            from "3.IH"(4) [OF Some ne ns nd f Inr "3.prems"] rec Inr fa Some ne ns nd f
            show ?thesis by simp
          qed
        qed
      qed
    qed
  qed
qed

lemma filterDependencies_knownModules:
  "filterDependencies (knownModules ms this stack) this stack = filterDependencies ms this stack"
  unfolding knownModules_def by (rule filterDependencies_known(1)) simp

subsection \<open>Resolution and the import graph\<close>

lemma resolveModule_Some:
  assumes "resolveModule ms n = Some m"
  shows "m \<in> set ms" and "name m = n" and "resolveModule ms (name m) = Some m"
  using assms by (auto simp: resolveModule_def find_Some_iff)

lemma rtrancl_image_eq: "r\<^sup>* `` {x} = insert x (r\<^sup>+ `` {x})"
  by (auto simp: rtrancl_eq_or_trancl)

lemma trancl_image_eq: "r\<^sup>+ `` {x} = {z. \<exists>y. (x, y) \<in> r \<and> (y, z) \<in> r\<^sup>*}"
  by (auto dest: tranclD intro: rtrancl_into_trancl2)

lemma targets_Nil [simp]: "targets ms [] = {}"
  by (simp add: targets_def)

lemma targets_Cons:
  "targets ms (s # ss) =
     (case moduleName s of
        None \<Rightarrow> {}
      | Some n \<Rightarrow> (case resolveModule ms n of
                     None \<Rightarrow> {}
                   | Some m0 \<Rightarrow> (importGraph ms)\<^sup>* `` {m0}))
     \<union> targets ms ss"
  by (auto simp: targets_def List.map_filter_simps split: option.splits)

lemma targets_statements: "targets ms (statements this) = (importGraph ms)\<^sup>+ `` {this}"
  unfolding trancl_image_eq
  by (auto simp: targets_def importGraph_def imports_of_def)


subsection \<open>Success collects an acyclic closure\<close>

lemma depsInv_Nil [simp]: "depsInv ms S []"
  by (simp add: depsInv_def)

lemma depsInv_extend:
  assumes inv: "depsInv ms S deps"
    and invds: "depsInv ms (insert (name m) S) ds"
    and ds: "set ds = (importGraph ms)\<^sup>+ `` {m}"
    and res: "resolveModule ms (name m) = Some m"
    and fresh: "name m \<notin> S"
  shows "depsInv ms S (deps @ filter (\<lambda>d. \<not> list_ex (\<lambda>d'. name d' = name d) deps) (ds @ [m]))"
    and "set (deps @ filter (\<lambda>d. \<not> list_ex (\<lambda>d'. name d' = name d) deps) (ds @ [m]))
           = set deps \<union> (importGraph ms)\<^sup>* `` {m}"
proof -
  let ?E = "importGraph ms"
  let ?new = "deps @ filter (\<lambda>d. \<not> list_ex (\<lambda>d'. name d' = name d) deps) (ds @ [m])"
  have reach: "?E\<^sup>* `` {m} = insert m (set ds)"
    using ds by (simp add: rtrancl_image_eq)
  have res_all: "resolveModule ms (name x) = Some x" if "x \<in> insert m (set ds)" for x
    using that res invds by (auto simp: depsInv_def)
  have kept: "x \<in> set ?new" if x: "x \<in> insert m (set ds)" for x
  proof (cases "list_ex (\<lambda>d'. name d' = name x) deps")
    case True
    then obtain d' where d': "d' \<in> set deps" "name d' = name x" by (auto simp: list_ex_iff)
    from inv d' have "resolveModule ms (name d') = Some d'" by (auto simp: depsInv_def)
    with d' res_all [OF x] have "d' = x" by simp
    with d' show ?thesis by simp
  next
    case False
    with x show ?thesis by auto
  qed
  have sub1: "set ?new \<subseteq> set deps \<union> insert m (set ds)" by auto
  have sub2: "set deps \<union> insert m (set ds) \<subseteq> set ?new"
  proof (rule subsetI)
    fix x
    assume "x \<in> set deps \<union> insert m (set ds)"
    then consider "x \<in> set deps" | "x \<in> insert m (set ds)" by blast
    then show "x \<in> set ?new"
    proof cases
      case 1
      then show ?thesis by simp
    next
      case 2
      then show ?thesis by (rule kept)
    qed
  qed
  from sub1 sub2 have set_new': "set ?new = set deps \<union> insert m (set ds)" by (rule subset_antisym)
  with reach show set_new: "set ?new = set deps \<union> ?E\<^sup>* `` {m}" by simp
  have no_self: "(m, m) \<notin> ?E\<^sup>+"
  proof
    assume "(m, m) \<in> ?E\<^sup>+"
    then have "m \<in> set ds" using ds by auto
    with invds have "name m \<notin> insert (name m) S" by (auto simp: depsInv_def)
    then show False by simp
  qed
  show "depsInv ms S ?new"
    unfolding depsInv_def
  proof (intro ballI conjI allI impI)
    fix d
    assume d: "d \<in> set ?new"
    then have d_cases: "d \<in> set deps \<or> d \<in> insert m (set ds)" using set_new' by blast
    show "resolveModule ms (name d) = Some d"
      using d_cases inv res_all by (auto simp: depsInv_def)
    fix m'
    assume r: "(d, m') \<in> ?E\<^sup>*"
    have m'_cases: "(d \<in> set deps \<and> name m' \<notin> S \<and> m' \<in> set deps \<and> (m', m') \<notin> ?E\<^sup>+)
        \<or> m' \<in> insert m (set ds)"
    proof (cases "d \<in> set deps")
      case True
      with inv r show ?thesis by (auto simp: depsInv_def)
    next
      case False
      with d_cases have "d \<in> ?E\<^sup>* `` {m}" using reach by simp
      with r have "m' \<in> ?E\<^sup>* `` {m}" by (auto intro: rtrancl_trans)
      then show ?thesis using reach by simp
    qed
    have in_ds: "name x \<notin> S \<and> (x, x) \<notin> ?E\<^sup>+" if "x \<in> set ds" for x
      using invds that by (auto simp: depsInv_def)
    show "name m' \<notin> S"
      using m'_cases fresh in_ds by auto
    show "m' \<in> set ?new"
      using m'_cases set_new' by blast
    show "(m', m') \<notin> ?E\<^sup>+"
      using m'_cases no_self in_ds by auto
  qed
qed

lemma depsInv_mono_deps:
  "depsInv ms S deps \<Longrightarrow> d \<in> set deps \<Longrightarrow> (importGraph ms)\<^sup>* `` {d} \<subseteq> set deps"
  by (auto simp: depsInv_def)

lemma filterDependencies_sound:
  shows "filterDependencies ms this stack = Inr deps \<Longrightarrow>
           depsInv ms (name ` set (this # stack)) deps
           \<and> set deps = (importGraph ms)\<^sup>+ `` {this}"
    and "filterDependencies_loop ms this stack ss deps0 = Inr deps' \<Longrightarrow>
           depsInv ms (name ` set (this # stack)) deps0 \<Longrightarrow>
           depsInv ms (name ` set (this # stack)) deps'
           \<and> set deps' = set deps0 \<union> targets ms ss"
proof (induction ms this stack and ms this stack ss deps0 arbitrary: deps and deps'
    rule: filterDependencies_filterDependencies_loop.induct)
  case (1 ms this stack)
  from "1.prems" have "filterDependencies_loop ms this stack (statements this) [] = Inr deps"
    by simp
  from "1.IH" [OF this] show ?case by (simp add: targets_statements)
next
  case (2 ms this stack deps0)
  then show ?case by simp
next
  case (3 ms this stack s ss deps0)
  let ?S = "name ` set (this # stack)"
  show ?case
  proof (cases "moduleName s")
    case None
    with "3.prems" have "filterDependencies_loop ms this stack ss deps0 = Inr deps'" by simp
    from "3.IH"(1) [OF None this "3.prems"(2)] None show ?thesis
      by (simp add: targets_Cons)
  next
    case (Some mn)
    from "3.prems"(1) Some have ne: "mn \<noteq> name this"
      and ns: "\<not> list_ex (\<lambda>d. name d = mn) stack"
      by (auto split: if_splits)
    then have freshS: "mn \<notin> ?S" by (auto simp: list_ex_iff)
    show ?thesis
    proof (cases "list_ex (\<lambda>d. name d = mn) deps0")
      case True
      with "3.prems"(1) Some ne ns
      have run: "filterDependencies_loop ms this stack ss deps0 = Inr deps'" by simp
      note ih = "3.IH"(2) [OF Some ne ns True run "3.prems"(2)]
      from True obtain d where d: "d \<in> set deps0" "name d = mn" by (auto simp: list_ex_iff)
      with "3.prems"(2) have rd: "resolveModule ms mn = Some d" by (auto simp: depsInv_def)
      from depsInv_mono_deps [OF "3.prems"(2) d(1)] have "(importGraph ms)\<^sup>* `` {d} \<subseteq> set deps0" .
      with ih Some rd show ?thesis by (auto simp: targets_Cons)
    next
      case False
      with "3.prems"(1) Some ne ns obtain m where
        f: "find (\<lambda>m. name m = mn) ms = Some m"
        by (auto split: option.splits)
      with "3.prems"(1) Some ne ns False obtain ds where
        walk: "filterDependencies ms m (this # stack) = Inr ds"
        by (auto split: sum.splits)
      let ?new = "deps0 @ filter (\<lambda>d. \<not> list_ex (\<lambda>d'. name d' = name d) deps0) (ds @ [m])"
      from "3.prems"(1) Some ne ns False f walk
      have run: "filterDependencies_loop ms this stack ss ?new = Inr deps'" by simp
      from f have rm: "resolveModule ms mn = Some m" by (simp add: resolveModule_def)
      note rs = resolveModule_Some [OF rm]
      from "3.IH"(3) [OF Some ne ns False f walk]
      have invds: "depsInv ms (insert (name m) ?S) ds"
        and dsset: "set ds = (importGraph ms)\<^sup>+ `` {m}" by simp_all
      from freshS rs(2) have fresh: "name m \<notin> ?S" by simp
      note ext = depsInv_extend [OF "3.prems"(2) invds dsset rs(3) fresh]
      note ih = "3.IH"(4) [OF Some ne ns False f walk run ext(1)]
      from ih ext(2) Some rm show ?thesis by (auto simp: targets_Cons)
    qed
  qed
qed

lemma success_acyclic:
  assumes ok: "filterDependencies ms this stack = Inr deps"
    and reach: "(this, m) \<in> (importGraph ms)\<^sup>*"
  shows "(m, m) \<notin> (importGraph ms)\<^sup>+"
proof
  assume cyc: "(m, m) \<in> (importGraph ms)\<^sup>+"
  from filterDependencies_sound(1) [OF ok]
  have inv: "depsInv ms (name ` set (this # stack)) deps"
    and ds: "set deps = (importGraph ms)\<^sup>+ `` {this}" by simp_all
  from reach cyc have "(this, m) \<in> (importGraph ms)\<^sup>+" by (rule rtrancl_trancl_trancl)
  with ds have m: "m \<in> set deps" by auto
  with inv have "(m, m) \<notin> (importGraph ms)\<^sup>+" by (auto simp: depsInv_def)
  with cyc show False by simp
qed


subsection \<open>The errors of well-imported modules\<close>

lemma targets_Cons_None: "moduleName s = None \<Longrightarrow> targets ms (s # ss) = targets ms ss"
  by (simp add: targets_Cons)

lemma targets_Cons_Some:
  "moduleName s = Some mn \<Longrightarrow> resolveModule ms mn = Some m0 \<Longrightarrow>
   targets ms (s # ss) = (importGraph ms)\<^sup>* `` {m0} \<union> targets ms ss"
  by (simp add: targets_Cons)

lemma targets_Cons_sub: "targets ms ss \<subseteq> targets ms (s # ss)"
  by (auto simp: targets_Cons)

lemma filterDependencies_error:
  shows "filterDependencies ms this stack = Inl e \<Longrightarrow>
           (\<forall>m. (this, m) \<in> (importGraph ms)\<^sup>* \<longrightarrow> wellImported ms m) \<Longrightarrow>
           e = SyntaxError ''circular import detected''"
    and "filterDependencies_loop ms this stack ss deps0 = Inl e \<Longrightarrow>
           list_all (\<lambda>n. n \<noteq> name this \<and> resolveModule ms n \<noteq> None)
             (List.map_filter moduleName ss) \<Longrightarrow>
           (\<forall>m \<in> targets ms ss. wellImported ms m) \<Longrightarrow>
           e = SyntaxError ''circular import detected''"
proof (induction ms this stack and ms this stack ss deps0
    rule: filterDependencies_filterDependencies_loop.induct)
  case (1 ms this stack)
  from "1.prems"(1) have run: "filterDependencies_loop ms this stack (statements this) [] = Inl e"
    by simp
  from "1.prems"(2) have "wellImported ms this" by blast
  then have la: "list_all (\<lambda>n. n \<noteq> name this \<and> resolveModule ms n \<noteq> None)
          (List.map_filter moduleName (statements this))"
    by (simp add: wellImported_def imports_of_def)
  have "(this, m) \<in> (importGraph ms)\<^sup>*" if "m \<in> targets ms (statements this)" for m
    using that unfolding targets_statements by auto
  with "1.prems"(2) have "\<forall>m \<in> targets ms (statements this). wellImported ms m" by blast
  from "1.IH" [OF run la this] show ?case .
next
  case (2 ms this stack deps0)
  then show ?case by simp
next
  case (3 ms this stack s ss deps0)
  from "3.prems"(3) targets_Cons_sub [of ms ss s]
  have wrest: "\<forall>m \<in> targets ms ss. wellImported ms m" by blast
  show ?case
  proof (cases "moduleName s")
    case None
    with "3.prems" have "filterDependencies_loop ms this stack ss deps0 = Inl e"
      and "list_all (\<lambda>n. n \<noteq> name this \<and> resolveModule ms n \<noteq> None)
             (List.map_filter moduleName ss)"
      by (simp_all add: List.map_filter_simps)
    from "3.IH"(1) [OF None this wrest] show ?thesis .
  next
    case (Some mn)
    with "3.prems"(2) have ne: "mn \<noteq> name this" and found: "resolveModule ms mn \<noteq> None"
      and rest: "list_all (\<lambda>n. n \<noteq> name this \<and> resolveModule ms n \<noteq> None)
             (List.map_filter moduleName ss)"
      by (simp_all add: List.map_filter_simps)
    show ?thesis
    proof (cases "list_ex (\<lambda>d. name d = mn) stack")
      case True
      with "3.prems"(1) Some ne show ?thesis by simp
    next
      case ns: False
      show ?thesis
      proof (cases "list_ex (\<lambda>d. name d = mn) deps0")
        case True
        with "3.prems"(1) Some ne ns
        have "filterDependencies_loop ms this stack ss deps0 = Inl e" by simp
        from "3.IH"(2) [OF Some ne ns True this rest wrest] show ?thesis .
      next
        case False
        from found obtain m where f: "find (\<lambda>m. name m = mn) ms = Some m"
          by (auto simp: resolveModule_def)
        then have rm: "resolveModule ms mn = Some m" by (simp add: resolveModule_def)
        have "(importGraph ms)\<^sup>* `` {m} \<subseteq> targets ms (s # ss)"
          unfolding targets_Cons_Some [OF Some rm] by blast
        with "3.prems"(3) have wm: "\<forall>m'. (m, m') \<in> (importGraph ms)\<^sup>* \<longrightarrow> wellImported ms m'"
          by blast
        show ?thesis
        proof (cases "filterDependencies ms m (this # stack)")
          case (Inl e')
          with "3.prems"(1) Some ne ns False f have "e' = e" by simp
          with "3.IH"(3) [OF Some ne ns False f _ wm] Inl show ?thesis by simp
        next
          case (Inr ds)
          with "3.prems"(1) Some ne ns False f
          have "filterDependencies_loop ms this stack ss
                  (deps0 @ filter (\<lambda>d. \<not> list_ex (\<lambda>d'. name d' = name d) deps0) (ds @ [m]))
                = Inl e" by simp
          from "3.IH"(4) [OF Some ne ns False f Inr this rest wrest] show ?thesis .
        qed
      qed
    qed
  qed
qed

lemma reachable_known:
  assumes "(this, m) \<in> (importGraph ms)\<^sup>*" and "this \<in> set ms"
  shows "m \<in> set ms"
  using assms
proof (induction rule: rtrancl_induct)
  case base
  then show ?case by simp
next
  case (step y z)
  from step.hyps(2) obtain n where "resolveModule ms n = Some z"
    by (auto simp: importGraph_def)
  then show ?case by (rule resolveModule_Some(1))
qed

lemma cycle_error:
  assumes wi: "list_all (\<lambda>m'. (this, m') \<in> (importGraph ms)\<^sup>* \<longrightarrow> wellImported ms m') ms"
    and mem: "this \<in> set ms"
    and reach: "(this, m) \<in> (importGraph ms)\<^sup>*"
    and cyc: "(m, m) \<in> (importGraph ms)\<^sup>+"
  shows "filterDependencies ms this stack = Inl (SyntaxError ''circular import detected'')"
proof (cases "filterDependencies ms this stack")
  case (Inl e)
  have "\<forall>m'. (this, m') \<in> (importGraph ms)\<^sup>* \<longrightarrow> wellImported ms m'"
    using wi reachable_known [OF _ mem] by (auto simp: list_all_iff)
  from filterDependencies_error(1) [OF Inl this] Inl show ?thesis by simp
next
  case (Inr ds)
  from success_acyclic [OF Inr reach] cyc show ?thesis by simp
qed

text \<open>
  Claim C5, as the code has it. Dependency resolution terminates for every module,
  candidate set and stack: \<open>filterDependencies\<close> is a total function, by the termination
  proof of its definition (each recursive call puts a new name of the candidate set on the
  stack). A module with a statement that imports the module's own name fails with
  \<^verbatim>\<open>can't import self\<close> once the statements before that one are resolved, and an earlier one
  that fails decides the error; when no import statement comes before it, the error is
  \<^verbatim>\<open>can't import self\<close>. A resolution that succeeds has met no import cycle: in the import
  graph of the candidate set and the modules being resolved, no module that can be reached
  from the module lies on a cycle, the module itself included. When none of the modules that
  can be reached imports itself and each of their imports resolves, a cycle that can be
  reached makes the resolution fail with \<^verbatim>\<open>circular import detected\<close>.
\<close>

theorem import_cycles_rejected:
  "(statements this = xs @ s # ys \<and> moduleName s = Some (name this) \<longrightarrow>
      filterDependencies ms this stack =
        (case filterDependencies_loop ms this stack xs [] of
           Inl e \<Rightarrow> Inl e
         | Inr d \<Rightarrow> Inl (SyntaxError ''can't import self'')))
   \<and> (statements this = xs @ s # ys \<and> moduleName s = Some (name this)
        \<and> list_all (\<lambda>x. moduleName x = None) xs \<longrightarrow>
      filterDependencies ms this stack = Inl (SyntaxError ''can't import self''))
   \<and> (filterDependencies ms this stack = Inr deps
        \<and> (this, m) \<in> (importGraph (knownModules ms this stack))\<^sup>* \<longrightarrow>
      (m, m) \<notin> (importGraph (knownModules ms this stack))\<^sup>+)
   \<and> (list_all (\<lambda>m'. (this, m') \<in> (importGraph (knownModules ms this stack))\<^sup>*
                      \<longrightarrow> wellImported (knownModules ms this stack) m')
          (knownModules ms this stack)
        \<and> (this, m) \<in> (importGraph (knownModules ms this stack))\<^sup>*
        \<and> (m, m) \<in> (importGraph (knownModules ms this stack))\<^sup>+ \<longrightarrow>
      filterDependencies ms this stack = Inl (SyntaxError ''circular import detected''))"
proof (intro conjI impI)
  assume "statements this = xs @ s # ys \<and> moduleName s = Some (name this)"
  then show "filterDependencies ms this stack =
        (case filterDependencies_loop ms this stack xs [] of
           Inl e \<Rightarrow> Inl e
         | Inr d \<Rightarrow> Inl (SyntaxError ''can't import self''))"
    using self_import by blast
next
  assume "statements this = xs @ s # ys \<and> moduleName s = Some (name this)
        \<and> list_all (\<lambda>x. moduleName x = None) xs"
  then show "filterDependencies ms this stack = Inl (SyntaxError ''can't import self'')"
    using first_self_import by blast
next
  assume a: "filterDependencies ms this stack = Inr deps
        \<and> (this, m) \<in> (importGraph (knownModules ms this stack))\<^sup>*"
  then have "filterDependencies (knownModules ms this stack) this stack = Inr deps"
    by (simp only: filterDependencies_knownModules)
  from success_acyclic [OF this] a
  show "(m, m) \<notin> (importGraph (knownModules ms this stack))\<^sup>+" by blast
next
  assume a: "list_all (\<lambda>m'. (this, m') \<in> (importGraph (knownModules ms this stack))\<^sup>*
                      \<longrightarrow> wellImported (knownModules ms this stack) m')
          (knownModules ms this stack)
        \<and> (this, m) \<in> (importGraph (knownModules ms this stack))\<^sup>*
        \<and> (m, m) \<in> (importGraph (knownModules ms this stack))\<^sup>+"
  have mem: "this \<in> set (knownModules ms this stack)" by (simp add: knownModules_def)
  from a have "filterDependencies (knownModules ms this stack) this stack
      = Inl (SyntaxError ''circular import detected'')"
    using cycle_error [OF _ mem, of m stack] by blast
  then show "filterDependencies ms this stack = Inl (SyntaxError ''circular import detected'')"
    by (simp only: filterDependencies_knownModules)
qed

text \<open>
  The theorem at a module that imports itself after a constant, and at a main module that
  imports \<^verbatim>\<open>A\<close>, where \<^verbatim>\<open>A\<close> imports \<^verbatim>\<open>B\<close> and \<^verbatim>\<open>B\<close> imports from the main module, which is
  not among the candidates, as \<^verbatim>\<open>Program.new\<close> resolves it.
\<close>

theorem import_cycles_rejected_witness:
  "filterDependencies [] moduleSelf [] = Inl (SyntaxError ''can't import self'')
   \<and> list_all (\<lambda>m'. (moduleMain, m') \<in> (importGraph (knownModules [moduleA, moduleB] moduleMain []))\<^sup>*
                      \<longrightarrow> wellImported (knownModules [moduleA, moduleB] moduleMain []) m')
          (knownModules [moduleA, moduleB] moduleMain [])
   \<and> (moduleMain, moduleMain) \<in> (importGraph (knownModules [moduleA, moduleB] moduleMain []))\<^sup>+
   \<and> filterDependencies [moduleA, moduleB] moduleMain []
       = Inl (SyntaxError ''circular import detected'')"
proof -
  let ?U = "knownModules [moduleA, moduleB] moduleMain []"
  have e1: "(moduleMain, moduleA) \<in> importGraph ?U"
    by (simp add: importGraph_def imports_of_def resolveModule_def knownModules_def
        moduleMain_def moduleA_def moduleB_def List.map_filter_simps)
  have e2: "(moduleA, moduleB) \<in> importGraph ?U"
    by (simp add: importGraph_def imports_of_def resolveModule_def knownModules_def
        moduleMain_def moduleA_def moduleB_def List.map_filter_simps)
  have e3: "(moduleB, moduleMain) \<in> importGraph ?U"
    by (simp add: importGraph_def imports_of_def resolveModule_def knownModules_def
        moduleMain_def moduleA_def moduleB_def List.map_filter_simps)
  have r: "(moduleMain, moduleMain) \<in> (importGraph ?U)\<^sup>*" by simp
  from e1 e2 have "(moduleMain, moduleB) \<in> (importGraph ?U)\<^sup>+"
    by (rule trancl_into_trancl [OF r_into_trancl])
  from this e3 have c: "(moduleMain, moduleMain) \<in> (importGraph ?U)\<^sup>+"
    by (rule trancl_into_trancl)
  have w: "list_all (wellImported ?U) ?U"
    by (simp add: wellImported_def imports_of_def resolveModule_def knownModules_def
        moduleMain_def moduleA_def moduleB_def List.map_filter_simps)
  then have w': "list_all (\<lambda>m'. (moduleMain, m') \<in> (importGraph ?U)\<^sup>* \<longrightarrow> wellImported ?U m') ?U"
    by (simp add: list_all_iff)
  have s: "statements moduleSelf = [ConstStatement ''c''] @ ImportModuleStatement ''S'' # []
      \<and> moduleName (ImportModuleStatement ''S'') = Some (name moduleSelf)
      \<and> list_all (\<lambda>x. moduleName x = None) [ConstStatement ''c'']"
    by (simp add: moduleSelf_def)
  from import_cycles_rejected [of moduleSelf "[ConstStatement ''c'']" "ImportModuleStatement ''S''"
      "[]" "[]" "[]" "[]" moduleSelf] s
  have a: "filterDependencies [] moduleSelf [] = Inl (SyntaxError ''can't import self'')"
    by blast
  from import_cycles_rejected [of moduleMain "[]" "FuncStatement ''main''" "[]"
      "[moduleA, moduleB]" "[]" "[]" moduleMain] r c w'
  have b: "filterDependencies [moduleA, moduleB] moduleMain []
       = Inl (SyntaxError ''circular import detected'')"
    by blast
  from a b c w' show ?thesis by blast
qed

text \<open>
  The claim as stated fails for a module \<^verbatim>\<open>X\<close> that imports \<^verbatim>\<open>Z\<close> and then itself, when no
  module \<^verbatim>\<open>Z\<close> is supplied: the module imports itself, and the error is the reference error
  of the statement before.
\<close>

theorem self_import_after_missing_counterexample:
  "moduleName (statements moduleLate ! 1) = Some (name moduleLate)
   \<and> filterDependencies [] moduleLate []
       = Inl (ReferenceError (''module '' @ quoted ''Z'' @ '' not found''))"
  by (simp add: moduleLate_def)

section \<open>Struct statements: theorems\<close>













end
